theory Spec2Isabelle
  imports Main "HOL-Library.Word"
begin

section \<open>The nodes hub of \<^verbatim>\<open>experiments/utils/nodes_hub.py\<close>\<close>

text \<open>
  The hub relays the peer-to-peer traffic of a set of local nodes. This theory embeds
  the frame scanner \<^verbatim>\<open>NodesHub.process_buffer\<close>, the port table built by
  \<^verbatim>\<open>NodesHub.sync_start_proxies\<close>, the edge bookkeeping of
  \<^verbatim>\<open>NodesHub.connect_nodes\<close> and \<^verbatim>\<open>NodesHub.disconnect_nodes\<close>, and the
  data path of the two protocol classes.

  Python values are modelled as follows: \<^verbatim>\<open>bytes\<close> is a list of 8-bit words, \<^verbatim>\<open>int\<close>
  is \<^typ>\<open>int\<close>, a \<^verbatim>\<open>dict\<close> is a map, an exception is the \<open>Inl\<close> branch of a sum.
\<close>

subsection \<open>Python values\<close>

type_synonym byte = "8 word"
type_synonym bytes = "byte list"

text \<open>A directed edge \<^verbatim>\<open>(outbound_idx, inbound_idx)\<close>.\<close>

type_synonym edge = "int \<times> int"

text \<open>
  The exceptions the modelled code can raise. \<open>RuntimeError\<close> is the
  \<^verbatim>\<open>RuntimeError('Connection (node%s --> node%s) already established')\<close> of
  \<^verbatim>\<open>connect_nodes\<close>; \<open>StructError\<close> is \<^verbatim>\<open>struct.error\<close>.
\<close>

datatype py_error =
    KeyError int
  | EdgeKeyError edge
  | StructError
  | IndexError
  | TypeError
  | RuntimeError edge

text \<open>What \<^verbatim>\<open>process_buffer\<close> returns: a bare \<^verbatim>\<open>return\<close> gives \<^verbatim>\<open>None\<close>.\<close>

datatype retval = PyNone | Bytes bytes

subsubsection \<open>Slices\<close>

text \<open>
  \<^verbatim>\<open>xs[i:j]\<close>, \<^verbatim>\<open>xs[:j]\<close> and \<^verbatim>\<open>xs[i:]\<close>. A negative index counts from the end, and
  every index is clamped to the range \<open>0 .. len(xs)\<close>.
\<close>

definition py_slice_index :: "nat \<Rightarrow> int \<Rightarrow> nat" where
  "py_slice_index n i = (if i < 0 then nat (int n + i) else min n (nat i))"

definition py_slice :: "'a list \<Rightarrow> int \<Rightarrow> int \<Rightarrow> 'a list" where
  "py_slice xs i j =
     (let a = py_slice_index (length xs) i; b = py_slice_index (length xs) j
      in take (b - a) (drop a xs))"

definition py_slice_to :: "'a list \<Rightarrow> int \<Rightarrow> 'a list" where
  "py_slice_to xs j = take (py_slice_index (length xs) j) xs"

definition py_slice_from :: "'a list \<Rightarrow> int \<Rightarrow> 'a list" where
  "py_slice_from xs i = drop (py_slice_index (length xs) i) xs"

subsubsection \<open>The \<^verbatim>\<open>struct\<close> formats the hub uses\<close>

text \<open>
  \<^verbatim>\<open>unpack("<i", bs)[0]\<close>: four bytes, little-endian, two's complement.
  Any other number of bytes raises \<^verbatim>\<open>struct.error\<close>.
\<close>

fun unpack_le_i :: "bytes \<Rightarrow> py_error + int" where
  "unpack_le_i [b0, b1, b2, b3] =
     (let u = uint b0 + 256 * uint b1 + 65536 * uint b2 + 16777216 * uint b3
      in Inr (if u < 2147483648 then u else u - 4294967296))"
| "unpack_le_i _ = Inl StructError"

text \<open>\<^verbatim>\<open>unpack('!H', bs)[0]\<close>: two bytes, big-endian, unsigned.\<close>

fun unpack_be_H :: "bytes \<Rightarrow> py_error + int" where
  "unpack_be_H [b0, b1] = Inr (256 * uint b0 + uint b1)"
| "unpack_be_H _ = Inl StructError"

text \<open>
  \<^verbatim>\<open>pack('!H', v)\<close>: the two bytes of \<open>v\<close>, most significant first; a value outside
  \<open>0 .. 65535\<close> raises \<^verbatim>\<open>struct.error\<close>.
\<close>

definition pack_be_H :: "int \<Rightarrow> py_error + bytes" where
  "pack_be_H v =
     (if 0 \<le> v \<and> v \<le> 65535
      then Inr [word_of_int (v div 256), word_of_int (v mod 256)]
      else Inl StructError)"

subsection \<open>The test framework\<close>

text \<open>
  \<^verbatim>\<open>p2p_port\<close> and \<^verbatim>\<open>hash256\<close> are imported from the test framework of the node
  software. They are parameters of the model: nothing is assumed about the port
  allocator or about the hash beyond what a theorem states.
\<close>

record test_framework =
  p2p_port :: "int \<Rightarrow> int"
  hash256 :: "bytes \<Rightarrow> bytes"

subsection \<open>The hub\<close>

text \<open>
  A \<^verbatim>\<open>TestNode\<close> is driven through \<^verbatim>\<open>addnode(address, command)\<close> only; a node is
  modelled by the requests it has received, the address \<^verbatim>\<open>'%s:%s' % (host, port)\<close>
  being kept as the pair.
\<close>

type_synonym test_node = "((string \<times> int) \<times> string) list"

text \<open>
  Transports and tasks are objects of the event loop. The model names each by a
  number and keeps what the hub can observe or change of them: whether
  \<^verbatim>\<open>close()\<close> was called on a transport (\<^verbatim>\<open>is_closing()\<close>), the chunks passed to
  its \<^verbatim>\<open>write\<close>, whether a task is cancelled and whether \<^verbatim>\<open>cancel()\<close> was called.
  The table of delays is left out: it decides how long a handler sleeps before it
  relays, and nothing else.
\<close>

type_synonym transport = nat
type_synonym task = nat

record hub =
  nodes :: "test_node list"
  host :: string
  proxy_servers :: "int list"
  relay_tasks :: "edge \<rightharpoonup> task"
  ports2node_map :: "int \<rightharpoonup> int"
  sender2proxy_transports :: "edge \<rightharpoonup> transport"
  proxy2receiver_transports :: "edge \<rightharpoonup> transport"
  pending_connection :: "edge option"
  closing :: "transport set"
  written :: "transport \<Rightarrow> bytes list"
  cancelled :: "task set"
  cancel_requested :: "task set"
  created_tasks :: nat

definition MSG_HEADER_LENGTH :: int where
  "MSG_HEADER_LENGTH = 4 + 12 + 4 + 4"

definition VERSION_PORT_OFFSET :: int where
  "VERSION_PORT_OFFSET = 4 + 8 + 8 + 26 + 8 + 16"

definition get_node_port :: "test_framework \<Rightarrow> int \<Rightarrow> int" where
  "get_node_port tf node_idx = p2p_port tf node_idx"

definition get_proxy_port :: "test_framework \<Rightarrow> hub \<Rightarrow> int \<Rightarrow> int" where
  "get_proxy_port tf h node_idx = p2p_port tf (int (length (nodes h)) + 1 + node_idx)"

subsection \<open>The frame scanner\<close>

text \<open>The bytes of \<^verbatim>\<open>b'version'\<close>.\<close>

definition version_command :: bytes where
  "version_command = [0x76, 0x65, 0x72, 0x73, 0x69, 0x6f, 0x6e]"

text \<open>\<^verbatim>\<open>bs.split(sep, 1)[0]\<close> for a separator of one byte: the bytes before the first \<open>sep\<close>.\<close>

definition split_first :: "byte \<Rightarrow> bytes \<Rightarrow> bytes" where
  "split_first sep bs = takeWhile (\<lambda>b. b \<noteq> sep) bs"

text \<open>
  One pass through the body of the \<^verbatim>\<open>while\<close> loop of \<^verbatim>\<open>process_buffer\<close>, entered
  with \<^verbatim>\<open>len(buffer) > MSG_HEADER_LENGTH\<close>. The pass ends in a \<^verbatim>\<open>return\<close>, in an
  exception, or at the bottom of the loop after one \<^verbatim>\<open>transport.write\<close>, with the new
  value of \<^verbatim>\<open>buffer\<close>.
\<close>

datatype iteration = Return retval | Raise py_error | Continue bytes bytes

definition process_buffer_iter :: "test_framework \<Rightarrow> hub \<Rightarrow> bytes \<Rightarrow> iteration" where
  "process_buffer_iter tf h buffer =
     (case unpack_le_i (py_slice buffer (4 + 12) (4 + 12 + 4)) of
        Inl e \<Rightarrow> Raise e
      | Inr msglen \<Rightarrow>
          if int (length buffer) < MSG_HEADER_LENGTH + msglen then Return PyNone
          else
            let command = split_first 0 (py_slice buffer 4 (4 + 12)) in
            if version_command = command then
              let msg = py_slice buffer MSG_HEADER_LENGTH (MSG_HEADER_LENGTH + msglen) in
              case unpack_be_H (py_slice msg VERSION_PORT_OFFSET (VERSION_PORT_OFFSET + 2)) of
                Inl e \<Rightarrow> Raise e
              | Inr node_port \<Rightarrow>
                  (case (if node_port \<noteq> 0
                         then (case ports2node_map h node_port of
                                 None \<Rightarrow> Inl (KeyError node_port)
                               | Some node_idx \<Rightarrow> Inr (get_proxy_port tf h node_idx))
                         else Inr 0) of
                     Inl e \<Rightarrow> Raise e
                   | Inr proxy_port \<Rightarrow>
                       (case pack_be_H proxy_port of
                          Inl e \<Rightarrow> Raise e
                        | Inr packed \<Rightarrow>
                            let msg' = py_slice_to msg VERSION_PORT_OFFSET @ packed
                                         @ py_slice_from msg (VERSION_PORT_OFFSET + 2);
                                msg_checksum = py_slice_to (hash256 tf msg') 4;
                                new_header = py_slice_to buffer (MSG_HEADER_LENGTH - 4)
                                               @ msg_checksum
                            in Continue (new_header @ msg')
                                 (py_slice_from buffer (MSG_HEADER_LENGTH + msglen))))
            else
              Continue (py_slice_to buffer (MSG_HEADER_LENGTH + msglen))
                (py_slice_from buffer (MSG_HEADER_LENGTH + msglen)))"

text \<open>
  \<^verbatim>\<open>process_buffer(buffer, transport)\<close>. The transport is the list of the chunks
  written to it; the result is that list after the call, with the value returned or the
  exception raised. The loop need not end, so the function is partial: \<open>None\<close> stands
  for a call that never returns.
\<close>

partial_function (option) process_buffer ::
  "test_framework \<Rightarrow> hub \<Rightarrow> bytes \<Rightarrow> bytes list \<Rightarrow> (bytes list \<times> (py_error + retval)) option"
where
  "process_buffer tf h buffer transport =
     (if int (length buffer) > MSG_HEADER_LENGTH then
        (case process_buffer_iter tf h buffer of
           Return r \<Rightarrow> Some (transport, Inr r)
         | Raise e \<Rightarrow> Some (transport, Inl e)
         | Continue chunk buffer' \<Rightarrow> process_buffer tf h buffer' (transport @ [chunk]))
      else Some (transport, Inr (Bytes buffer)))"

declare process_buffer.simps [code]

text \<open>
  The first \<open>n\<close> passes of the loop of \<^verbatim>\<open>process_buffer\<close> on a buffer, where each of
  them is entered and ends at the bottom of the loop: the chunks written by them, in
  order, and the value of \<^verbatim>\<open>buffer\<close> after them. The result is \<open>None\<close> where one of
  these passes is not entered, returns or raises. The passes are those of the loop
  whether or not the loop ends later.
\<close>

fun process_buffer_passes ::
  "test_framework \<Rightarrow> hub \<Rightarrow> nat \<Rightarrow> bytes \<Rightarrow> (bytes list \<times> bytes) option"
where
  "process_buffer_passes tf h 0 buffer = Some ([], buffer)"
| "process_buffer_passes tf h (Suc n) buffer =
     (case process_buffer_passes tf h n buffer of
        None \<Rightarrow> None
      | Some (chunks, buffer') \<Rightarrow>
          if int (length buffer') > MSG_HEADER_LENGTH then
            (case process_buffer_iter tf h buffer' of
               Continue chunk buffer'' \<Rightarrow> Some (chunks @ [chunk], buffer'')
             | Return r \<Rightarrow> None
             | Raise e \<Rightarrow> None)
          else None)"

subsection \<open>The port table\<close>

text \<open>
  \<^verbatim>\<open>sync_start_proxies\<close>: the loop over \<^verbatim>\<open>range(len(self.nodes))\<close> stores the node port
  and then the proxy port of each node; after it one server per node listens on the
  node's proxy port. A server is modelled by its port; binding is taken to succeed.
\<close>

definition register_ports ::
  "test_framework \<Rightarrow> hub \<Rightarrow> (int \<rightharpoonup> int) \<Rightarrow> int \<Rightarrow> (int \<rightharpoonup> int)"
where
  "register_ports tf h m node_id =
     (m(get_node_port tf node_id \<mapsto> node_id))(get_proxy_port tf h node_id \<mapsto> node_id)"

definition node_ids :: "hub \<Rightarrow> int list" where
  "node_ids h = map int [0..<length (nodes h)]"

definition sync_start_proxies :: "test_framework \<Rightarrow> hub \<Rightarrow> hub" where
  "sync_start_proxies tf h =
     h\<lparr>ports2node_map := foldl (register_ports tf h) (ports2node_map h) (node_ids h),
       proxy_servers := map (get_proxy_port tf h) (node_ids h)\<rparr>"

text \<open>The hub as \<^verbatim>\<open>__init__\<close> leaves it, for the given nodes and host.\<close>

definition init_hub :: "test_node list \<Rightarrow> string \<Rightarrow> hub" where
  "init_hub ns hst =
     \<lparr>nodes = ns, host = hst, proxy_servers = [], relay_tasks = Map.empty,
      ports2node_map = Map.empty, sender2proxy_transports = Map.empty,
      proxy2receiver_transports = Map.empty, pending_connection = None,
      closing = {}, written = (\<lambda>_. []), cancelled = {}, cancel_requested = {},
      created_tasks = 0\<rparr>"

subsection \<open>Disconnecting an edge\<close>

text \<open>
  \<^verbatim>\<open>transport.close()\<close> guarded by \<^verbatim>\<open>not transport.is_closing()\<close>, and
  \<^verbatim>\<open>relay_task.cancel()\<close> guarded by \<^verbatim>\<open>not relay_task.cancelled()\<close>; both on an
  entry read with \<^verbatim>\<open>dict.get(key, None)\<close>.
\<close>

definition close_transport :: "transport option \<Rightarrow> hub \<Rightarrow> hub" where
  "close_transport t h =
     (case t of
        None \<Rightarrow> h
      | Some tr \<Rightarrow> if tr \<notin> closing h then h\<lparr>closing := insert tr (closing h)\<rparr> else h)"

definition cancel_task :: "task option \<Rightarrow> hub \<Rightarrow> hub" where
  "cancel_task t h =
     (case t of
        None \<Rightarrow> h
      | Some k \<Rightarrow>
          if k \<notin> cancelled h then h\<lparr>cancel_requested := insert k (cancel_requested h)\<rparr>
          else h)"

definition disconnect_nodes :: "hub \<Rightarrow> int \<Rightarrow> int \<Rightarrow> hub" where
  "disconnect_nodes h outbound_idx inbound_idx =
     (let sender2proxy_transport = sender2proxy_transports h (outbound_idx, inbound_idx);
          proxy2receiver_transport = proxy2receiver_transports h (outbound_idx, inbound_idx);
          relay_task = relay_tasks h (outbound_idx, inbound_idx);
          h1 = close_transport sender2proxy_transport h;
          h2 = close_transport proxy2receiver_transport h1;
          h3 = cancel_task relay_task h2
      in h3\<lparr>sender2proxy_transports :=
                (sender2proxy_transports h3)((outbound_idx, inbound_idx) := None),
              proxy2receiver_transports :=
                (proxy2receiver_transports h3)((outbound_idx, inbound_idx) := None),
              relay_tasks := (relay_tasks h3)((outbound_idx, inbound_idx) := None)\<rparr>)"

subsection \<open>Connecting an edge\<close>

text \<open>
  \<^verbatim>\<open>connect_sender_to_proxy\<close>: \<^verbatim>\<open>self.nodes[outbound_idx]\<close> raises \<^verbatim>\<open>IndexError\<close>
  outside \<open>-len .. len - 1\<close>; the two \<^verbatim>\<open>addnode\<close> requests are recorded at the node.
\<close>

definition connect_sender_to_proxy ::
  "test_framework \<Rightarrow> hub \<Rightarrow> int \<Rightarrow> int \<Rightarrow> py_error + hub"
where
  "connect_sender_to_proxy tf h outbound_idx inbound_idx =
     (let n = int (length (nodes h));
          k = (if outbound_idx < 0 then n + outbound_idx else outbound_idx)
      in if 0 \<le> k \<and> k < n then
           let proxy_address = (host h, get_proxy_port tf h inbound_idx);
               sender_node = nodes h ! nat k
           in Inr (h\<lparr>nodes := (nodes h)
                    [nat k := sender_node @ [(proxy_address, ''add''),
                                             (proxy_address, ''onetry'')]]\<rparr>)
         else Inl IndexError)"

text \<open>
  \<^verbatim>\<open>connect_proxy_to_receiver\<close>: the task made by \<^verbatim>\<open>loop.create_task\<close> is a new one,
  stored under the edge.
\<close>

definition connect_proxy_to_receiver :: "hub \<Rightarrow> int \<Rightarrow> int \<Rightarrow> hub" where
  "connect_proxy_to_receiver h outbound_idx inbound_idx =
     h\<lparr>relay_tasks := (relay_tasks h)((outbound_idx, inbound_idx) \<mapsto> created_tasks h),
       created_tasks := Suc (created_tasks h)\<rparr>"

text \<open>
  \<^verbatim>\<open>connect_nodes\<close> is a coroutine with three \<^verbatim>\<open>while ...: await asyncio_sleep(0)\<close>
  loops. Scheduling is cooperative, so the hub changes under a coroutine only while it
  is suspended in one of them. The model runs the coroutine from the test of one of the
  loops to its next suspension, to its return or to an exception.
\<close>

datatype connect_pc = AwaitProxies | AwaitLock | AwaitTransports

datatype outcome = Suspended connect_pc | Returned | Raised py_error

definition connect_nodes_transports :: "hub \<Rightarrow> hub \<times> outcome" where
  "connect_nodes_transports h =
     (if (case pending_connection h of
            None \<Rightarrow> True
          | Some e \<Rightarrow> sender2proxy_transports h e = None
                      \<or> proxy2receiver_transports h e = None)
      then (h, Suspended AwaitTransports)
      else (h\<lparr>pending_connection := None\<rparr>, Returned))"

definition connect_nodes_lock ::
  "test_framework \<Rightarrow> int \<Rightarrow> int \<Rightarrow> hub \<Rightarrow> hub \<times> outcome"
where
  "connect_nodes_lock tf outbound_idx inbound_idx h =
     (if pending_connection h \<noteq> None then (h, Suspended AwaitLock)
      else
        let h1 = h\<lparr>pending_connection := Some (outbound_idx, inbound_idx)\<rparr> in
        if sender2proxy_transports h1 (outbound_idx, inbound_idx) \<noteq> None
           \<or> proxy2receiver_transports h1 (outbound_idx, inbound_idx) \<noteq> None
        then (h1, Raised (RuntimeError (outbound_idx, inbound_idx)))
        else
          (case connect_sender_to_proxy tf h1 outbound_idx inbound_idx of
             Inl e \<Rightarrow> (h1, Raised e)
           | Inr h2 \<Rightarrow>
               connect_nodes_transports
                 (connect_proxy_to_receiver h2 outbound_idx inbound_idx)))"

definition connect_nodes_proxies ::
  "test_framework \<Rightarrow> int \<Rightarrow> int \<Rightarrow> hub \<Rightarrow> hub \<times> outcome"
where
  "connect_nodes_proxies tf outbound_idx inbound_idx h =
     (if length (proxy_servers h) < length (nodes h) then (h, Suspended AwaitProxies)
      else connect_nodes_lock tf outbound_idx inbound_idx h)"

text \<open>
  \<open>connect_nodes tf pc out in h\<close>: the coroutine \<^verbatim>\<open>connect_nodes(out, in)\<close> resumed at
  \<open>pc\<close> on the hub \<open>h\<close>; a call starts at \<open>AwaitProxies\<close>.
\<close>

definition connect_nodes ::
  "test_framework \<Rightarrow> connect_pc \<Rightarrow> int \<Rightarrow> int \<Rightarrow> hub \<Rightarrow> hub \<times> outcome"
where
  "connect_nodes tf pc outbound_idx inbound_idx h =
     (case pc of
        AwaitProxies \<Rightarrow> connect_nodes_proxies tf outbound_idx inbound_idx h
      | AwaitLock \<Rightarrow> connect_nodes_lock tf outbound_idx inbound_idx h
      | AwaitTransports \<Rightarrow> connect_nodes_transports h)"

subsection \<open>The protocol classes\<close>

text \<open>
  A \<^verbatim>\<open>NodeProxy\<close> serves the connection of a sender to a proxy, a \<^verbatim>\<open>ProxyRelay\<close> the
  connection of the hub to the receiver. Both keep the edge and \<^verbatim>\<open>recvbuf\<close>.
\<close>

record handler =
  sender2receiver_pair :: edge
  recvbuf :: retval

text \<open>
  \<^verbatim>\<open>NodeProxy.connection_made\<close> reads the edge from \<^verbatim>\<open>pending_connection\<close>; the
  \<^verbatim>\<open>[:]\<close> of the log line raises \<^verbatim>\<open>TypeError\<close> on \<^verbatim>\<open>None\<close>.
\<close>

definition NodeProxy_connection_made :: "hub \<Rightarrow> transport \<Rightarrow> py_error + (hub \<times> handler)" where
  "NodeProxy_connection_made h tr =
     (case pending_connection h of
        None \<Rightarrow> Inl TypeError
      | Some e \<Rightarrow>
          Inr (h\<lparr>sender2proxy_transports := (sender2proxy_transports h)(e \<mapsto> tr)\<rparr>,
               \<lparr>sender2receiver_pair = e, recvbuf = Bytes []\<rparr>))"

definition ProxyRelay_connection_made :: "hub \<Rightarrow> edge \<Rightarrow> transport \<Rightarrow> hub \<times> handler" where
  "ProxyRelay_connection_made h e tr =
     (h\<lparr>proxy2receiver_transports := (proxy2receiver_transports h)(e \<mapsto> tr)\<rparr>,
      \<lparr>sender2receiver_pair = e, recvbuf = Bytes []\<rparr>)"

definition connection_lost :: "hub \<Rightarrow> handler \<Rightarrow> hub" where
  "connection_lost h p =
     disconnect_nodes h (fst (sender2receiver_pair p)) (snd (sender2receiver_pair p))"

text \<open>
  The statements of \<^verbatim>\<open>__handle_received_data\<close> that follow its waits, for a handler
  that writes to the table \<open>peers\<close> of the hub (\<^verbatim>\<open>proxy2receiver_transports\<close> for a
  \<^verbatim>\<open>NodeProxy\<close>, \<^verbatim>\<open>sender2proxy_transports\<close> for a \<^verbatim>\<open>ProxyRelay\<close>):
  \<^verbatim>\<open>self.recvbuf += data\<close>, then the look-up of the transport, then the call of
  \<^verbatim>\<open>process_buffer\<close>, whose result is assigned to \<^verbatim>\<open>self.recvbuf\<close>. The result is the
  hub and the handler afterwards, with the exception that left the coroutine, if any.
\<close>

definition relay_received_data ::
  "test_framework \<Rightarrow> (hub \<Rightarrow> edge \<rightharpoonup> transport) \<Rightarrow> hub \<Rightarrow> handler \<Rightarrow> bytes
     \<Rightarrow> (hub \<times> handler \<times> py_error option) option"
where
  "relay_received_data tf peers h p data =
     (if length data > 0 then
        (case recvbuf p of
           PyNone \<Rightarrow> Some (h, p, Some TypeError)
         | Bytes b \<Rightarrow>
             let p1 = p\<lparr>recvbuf := Bytes (b @ data)\<rparr> in
             (case peers h (sender2receiver_pair p) of
                None \<Rightarrow> Some (h, p1, Some (EdgeKeyError (sender2receiver_pair p)))
              | Some tr \<Rightarrow>
                  (case process_buffer tf h (b @ data) (written h tr) of
                     None \<Rightarrow> None
                   | Some (log, res) \<Rightarrow>
                       let h1 = h\<lparr>written := (written h)(tr := log)\<rparr> in
                       (case res of
                          Inl e \<Rightarrow> Some (h1, p1, Some e)
                        | Inr r \<Rightarrow> Some (h1, p1\<lparr>recvbuf := r\<rparr>, None)))))
      else Some (h, p, None))"

definition NodeProxy_handle_received_data ::
  "test_framework \<Rightarrow> hub \<Rightarrow> handler \<Rightarrow> bytes \<Rightarrow> (hub \<times> handler \<times> py_error option) option"
where
  "NodeProxy_handle_received_data tf = relay_received_data tf proxy2receiver_transports"


subsection \<open>Sample inputs\<close>

text \<open>
  A test framework whose ports start at 11000 and whose stand-in for the hash reverses
  the last 32 bytes of the message; a hub for two nodes after \<^verbatim>\<open>sync_start_proxies\<close>,
  and the same hub with the edge \<open>(0, 1)\<close> open.
\<close>

definition sample_tf :: test_framework where
  "sample_tf = \<lparr>p2p_port = (\<lambda>n. 11000 + n), hash256 = (\<lambda>m. take 32 (rev m))\<rparr>"

definition sample_hub :: hub where
  "sample_hub = sync_start_proxies sample_tf (init_hub [[], []] ''127.0.0.1'')"

definition sample_open_hub :: hub where
  "sample_open_hub =
     sample_hub\<lparr>nodes := [[((''127.0.0.1'', 11004), ''add''),
                          ((''127.0.0.1'', 11004), ''onetry'')], []],
                relay_tasks := [(0, 1) \<mapsto> 0],
                sender2proxy_transports := [(0, 1) \<mapsto> 0],
                proxy2receiver_transports := [(0, 1) \<mapsto> 1],
                created_tasks := 1\<rparr>"

text \<open>Headers: magic, command padded with NUL to 12 bytes, length, checksum.\<close>

definition magic :: bytes where
  "magic = [0xfa, 0xbf, 0xb5, 0xda]"

definition ping_command :: bytes where
  "ping_command = [0x70, 0x69, 0x6e, 0x67, 0, 0, 0, 0, 0, 0, 0, 0]"

definition verack_command :: bytes where
  "verack_command = [0x76, 0x65, 0x72, 0x61, 0x63, 0x6b, 0, 0, 0, 0, 0, 0]"

definition version_command_padded :: bytes where
  "version_command_padded = [0x76, 0x65, 0x72, 0x73, 0x69, 0x6f, 0x6e, 0, 0, 0, 0, 0]"

text \<open>A \<^verbatim>\<open>ping\<close> frame with its 8 bytes of payload, complete.\<close>

definition ping_frame :: bytes where
  "ping_frame = magic @ ping_command @ [8, 0, 0, 0] @ [0x11, 0x22, 0x33, 0x44]
                 @ [1, 2, 3, 4, 5, 6, 7, 8]"

text \<open>The same frame when only the first byte of its payload has arrived.\<close>

definition partial_ping_frame :: bytes where
  "partial_ping_frame = magic @ ping_command @ [8, 0, 0, 0] @ [0x11, 0x22, 0x33, 0x44] @ [1]"

text \<open>A \<^verbatim>\<open>verack\<close> frame: no payload, 24 bytes.\<close>

definition verack_frame :: bytes where
  "verack_frame = magic @ verack_command @ [0, 0, 0, 0] @ [0x5d, 0xf6, 0xe0, 0xe2]"

text \<open>A header whose length field is \<open>0xffffffff\<close>, followed by one byte.\<close>

definition high_bit_frame :: bytes where
  "high_bit_frame = magic @ ping_command @ [0xff, 0xff, 0xff, 0xff]
                     @ [0x11, 0x22, 0x33, 0x44] @ [1]"

text \<open>A header whose length field is \<open>0xffffffe8\<close>, followed by one byte.\<close>

definition stuck_frame :: bytes where
  "stuck_frame = magic @ ping_command @ [0xe8, 0xff, 0xff, 0xff]
                  @ [0x11, 0x22, 0x33, 0x44] @ [1]"

text \<open>
  \<^verbatim>\<open>version\<close> frames with a payload of 72 bytes that ends in the advertised port:
  11000, the port of node 0 (\<open>0x2af8\<close>), and 9999, the port of no node (\<open>0x270f\<close>).
\<close>

definition version_frame :: bytes where
  "version_frame = magic @ version_command_padded @ [72, 0, 0, 0]
                    @ [0x11, 0x22, 0x33, 0x44] @ replicate 70 7 @ [0x2a, 0xf8]"

text \<open>The first of them as the hub has to pass it on: port 11003, new checksum.\<close>

definition rewritten_version_frame :: bytes where
  "rewritten_version_frame = magic @ version_command_padded @ [72, 0, 0, 0]
                              @ [0xfb, 0x2a, 7, 7] @ replicate 70 7 @ [0x2a, 0xfb]"

definition unknown_port_frame :: bytes where
  "unknown_port_frame = magic @ version_command_padded @ [72, 0, 0, 0]
                         @ [0x11, 0x22, 0x33, 0x44] @ replicate 70 7 @ [0x27, 0x0f]"

text \<open>A handler of the edge \<open>(0, 1)\<close> that has received nothing yet.\<close>

definition sample_handler :: handler where
  "sample_handler = \<lparr>sender2receiver_pair = (0, 1), recvbuf = Bytes []\<rparr>"

section \<open>Properties\<close>

subsection \<open>The sample hubs\<close>

lemma sample_hub_fields:
  "nodes sample_hub = [[], []]"
  "pending_connection sample_hub = None"
  "sender2proxy_transports sample_hub = Map.empty"
  "proxy2receiver_transports sample_hub = Map.empty"
  "proxy_servers sample_hub = [11003, 11004]"
  by (simp_all add: sample_hub_def sync_start_proxies_def init_hub_def node_ids_def
      get_proxy_port_def sample_tf_def upt_conv_Cons)

lemma sample_open_hub_fields:
  "proxy2receiver_transports sample_open_hub (0, 1) = Some 1"
  "sender2proxy_transports sample_open_hub (0, 1) = Some 0"
  "relay_tasks sample_open_hub (0, 1) = Some 0"
  "written sample_open_hub = (\<lambda>_. [])"
  "closing sample_open_hub = {}"
  "pending_connection sample_open_hub = None"
  by (simp_all add: sample_open_hub_def sample_hub_def sync_start_proxies_def init_hub_def)

lemma sample_open_hub_more:
  "length (nodes sample_open_hub) = 2"
  "proxy_servers sample_open_hub = [11003, 11004]"
  by (simp_all add: sample_open_hub_def sample_hub_fields)

subsection \<open>Slices with indices that are not negative\<close>

lemma py_slice_index_nonneg: "0 \<le> i \<Longrightarrow> py_slice_index n i = min n (nat i)"
  by (simp add: py_slice_index_def)

lemma py_slice_nonneg:
  assumes "0 \<le> i" and "0 \<le> j"
  shows "py_slice xs i j = take (nat j - nat i) (drop (nat i) xs)"
proof (cases "nat i \<le> length xs")
  case True
  then show ?thesis using assms
    by (simp add: py_slice_def py_slice_index_nonneg Let_def min_def)
next
  case False
  then show ?thesis using assms
    by (simp add: py_slice_def py_slice_index_nonneg Let_def min_def)
qed

lemma py_slice_to_nonneg: "0 \<le> j \<Longrightarrow> py_slice_to xs j = take (nat j) xs"
  by (simp add: py_slice_to_def py_slice_index_nonneg min_def)

lemma py_slice_from_nonneg: "0 \<le> i \<Longrightarrow> py_slice_from xs i = drop (nat i) xs"
  by (simp add: py_slice_from_def py_slice_index_nonneg min_def)

lemmas py_slices = py_slice_nonneg py_slice_to_nonneg py_slice_from_nonneg

subsection \<open>The loop of the scanner, one pass at a time\<close>

lemma process_buffer_short:
  "int (length buffer) \<le> MSG_HEADER_LENGTH \<Longrightarrow>
   process_buffer tf h buffer transport = Some (transport, Inr (Bytes buffer))"
  by (subst process_buffer.simps) simp

lemma process_buffer_continue:
  "MSG_HEADER_LENGTH < int (length buffer) \<Longrightarrow>
   process_buffer_iter tf h buffer = Continue chunk buffer' \<Longrightarrow>
   process_buffer tf h buffer transport = process_buffer tf h buffer' (transport @ [chunk])"
  by (subst process_buffer.simps) simp

lemma process_buffer_return:
  "MSG_HEADER_LENGTH < int (length buffer) \<Longrightarrow>
   process_buffer_iter tf h buffer = Return r \<Longrightarrow>
   process_buffer tf h buffer transport = Some (transport, Inr r)"
  by (subst process_buffer.simps) simp

lemma process_buffer_raise:
  "MSG_HEADER_LENGTH < int (length buffer) \<Longrightarrow>
   process_buffer_iter tf h buffer = Raise e \<Longrightarrow>
   process_buffer tf h buffer transport = Some (transport, Inl e)"
  by (subst process_buffer.simps) simp

text \<open>
  After passes that all end at the bottom of the loop, the call is where a call on the
  buffer left would be, with the chunks written.
\<close>

lemma process_buffer_passes_loop:
  "process_buffer_passes tf h n buffer = Some (chunks, buffer') \<Longrightarrow>
   process_buffer tf h buffer transport = process_buffer tf h buffer' (transport @ chunks)"
proof (induction n arbitrary: chunks buffer')
  case 0
  then show ?case by simp
next
  case (Suc n)
  from Suc.prems obtain cs b c where
    before: "process_buffer_passes tf h n buffer = Some (cs, b)"
    and entered: "MSG_HEADER_LENGTH < int (length b)"
    and pass: "process_buffer_iter tf h b = Continue c buffer'"
    and chunks: "chunks = cs @ [c]"
    by (auto split: option.splits if_splits iteration.splits)
  from Suc.IH [OF before]
  have "process_buffer tf h buffer transport = process_buffer tf h b (transport @ cs)" .
  also from process_buffer_continue [OF entered pass]
  have "\<dots> = process_buffer tf h buffer' ((transport @ cs) @ [c])" .
  finally show ?case by (simp add: chunks)
qed

text \<open>
  A call that returns has appended chunks to the transport, and these chunks and the
  result do not depend on what the transport held before.
\<close>

lemma process_buffer_log_aux:
  assumes "process_buffer tf h buffer transport = Some y"
  shows "\<exists>more. fst y = transport @ more
           \<and> (\<forall>t. process_buffer tf h buffer t = Some (t @ more, snd y))"
proof (rule process_buffer.raw_induct
    [where P = "\<lambda>tf h buffer transport y. \<exists>more. fst y = transport @ more
           \<and> (\<forall>t. process_buffer tf h buffer t = Some (t @ more, snd y))",
     OF _ assms])
  fix f :: "test_framework \<Rightarrow> hub \<Rightarrow> bytes \<Rightarrow> bytes list \<Rightarrow> (bytes list \<times> (py_error + retval)) option"
  fix tf h buffer transport y
  assume IH: "\<And>tf h buffer transport y. f tf h buffer transport = Some y \<Longrightarrow>
     \<exists>more. fst y = transport @ more
           \<and> (\<forall>t. process_buffer tf h buffer t = Some (t @ more, snd y))"
  assume step: "(if MSG_HEADER_LENGTH < int (length buffer)
      then case process_buffer_iter tf h buffer of
           Return r \<Rightarrow> Some (transport, Inr r)
           | Raise e \<Rightarrow> Some (transport, Inl e)
           | Continue chunk buffer' \<Rightarrow> f tf h buffer' (transport @ [chunk])
      else Some (transport, Inr (Bytes buffer))) = Some y"
  show "\<exists>more. fst y = transport @ more
           \<and> (\<forall>t. process_buffer tf h buffer t = Some (t @ more, snd y))"
  proof (cases "MSG_HEADER_LENGTH < int (length buffer)")
    case False
    with step have "y = (transport, Inr (Bytes buffer))" by simp
    with False show ?thesis by (simp add: process_buffer_short)
  next
    case True
    show ?thesis
    proof (cases "process_buffer_iter tf h buffer")
      case (Return r)
      with step True have "y = (transport, Inr r)" by simp
      with True Return show ?thesis by (simp add: process_buffer_return)
    next
      case (Raise e)
      with step True have "y = (transport, Inl e)" by simp
      with True Raise show ?thesis by (simp add: process_buffer_raise)
    next
      case (Continue chunk buffer')
      with step True have "f tf h buffer' (transport @ [chunk]) = Some y" by simp
      from IH [OF this] obtain more where
        more: "fst y = (transport @ [chunk]) @ more"
        "\<forall>t. process_buffer tf h buffer' t = Some (t @ more, snd y)"
        by blast
      have "process_buffer tf h buffer t = Some (t @ chunk # more, snd y)" for t
        using process_buffer_continue [OF True Continue, of t] more(2) by simp
      with more(1) show ?thesis by simp
    qed
  qed
qed

lemma process_buffer_transport:
  "process_buffer tf h buffer transport =
     map_option (\<lambda>(log, res). (transport @ log, res)) (process_buffer tf h buffer [])"
proof (cases "process_buffer tf h buffer []")
  case None
  show ?thesis
  proof (cases "process_buffer tf h buffer transport")
    case inner: None
    with None show ?thesis by simp
  next
    case (Some y)
    from process_buffer_log_aux [OF this] obtain more where
      "\<forall>t. process_buffer tf h buffer t = Some (t @ more, snd y)"
      by blast
    then have "process_buffer tf h buffer [] = Some ([] @ more, snd y)"
      by blast
    with None show ?thesis by simp
  qed
next
  case (Some y)
  from process_buffer_log_aux [OF this] obtain more where
    "fst y = more" "\<forall>t. process_buffer tf h buffer t = Some (t @ more, snd y)"
    by auto
  with Some show ?thesis by (cases y) simp
qed

lemma process_buffer_passes_result:
  assumes "process_buffer_passes tf h n buffer = Some (chunks, buffer')"
  shows "process_buffer tf h buffer transport =
           map_option (\<lambda>(log, res). (transport @ chunks @ log, res))
             (process_buffer tf h buffer' [])"
  using process_buffer_passes_loop [OF assms, of transport]
    process_buffer_transport [of tf h buffer' "transport @ chunks"]
  by (simp add: case_prod_unfold)

text \<open>
  One more pass after \<open>n\<close> passes: what the call on the whole buffer returns is what
  the call on the rest returns, behind the chunks of all these passes; and it does
  return when the rest has no more than 24 bytes.
\<close>

lemma process_buffer_passes_Suc:
  assumes "process_buffer_passes tf h n buffer0 = Some (chunks, buffer)"
    and "MSG_HEADER_LENGTH < int (length buffer)"
    and "process_buffer_iter tf h buffer = Continue chunk rest"
  shows "process_buffer_passes tf h (Suc n) buffer0 = Some (chunks @ [chunk], rest)"
  using assms by simp

lemma process_buffer_after_passes:
  assumes reach: "process_buffer_passes tf h n buffer0 = Some (chunks, buffer)"
    and entered: "MSG_HEADER_LENGTH < int (length buffer)"
    and pass: "process_buffer_iter tf h buffer = Continue chunk rest"
  shows "process_buffer_passes tf h (Suc n) buffer0 = Some (chunks @ [chunk], rest)"
    and "process_buffer tf h buffer0 transport =
           map_option (\<lambda>(log, res). (transport @ chunks @ [chunk] @ log, res))
             (process_buffer tf h rest [])"
    and "int (length rest) \<le> MSG_HEADER_LENGTH \<longrightarrow>
           process_buffer tf h buffer0 transport =
             Some (transport @ chunks @ [chunk], Inr (Bytes rest))"
proof -
  show next_pass: "process_buffer_passes tf h (Suc n) buffer0 = Some (chunks @ [chunk], rest)"
    by (rule process_buffer_passes_Suc [OF assms])
  from process_buffer_passes_result [OF next_pass, of transport]
  show result: "process_buffer tf h buffer0 transport =
           map_option (\<lambda>(log, res). (transport @ chunks @ [chunk] @ log, res))
             (process_buffer tf h rest [])"
    by simp
  show "int (length rest) \<le> MSG_HEADER_LENGTH \<longrightarrow>
           process_buffer tf h buffer0 transport =
             Some (transport @ chunks @ [chunk], Inr (Bytes rest))"
    by (simp add: result process_buffer_short)
qed

subsection \<open>Frames that are not \<^verbatim>\<open>version\<close>\<close>

lemma iter_unaltered:
  assumes "unpack_le_i (py_slice buffer 16 20) = Inr msglen"
    and "0 \<le> msglen"
    and "MSG_HEADER_LENGTH + msglen \<le> int (length buffer)"
    and "split_first 0 (py_slice buffer 4 16) \<noteq> version_command"
  shows "process_buffer_iter tf h buffer =
           Continue (take (nat (24 + msglen)) buffer) (drop (nat (24 + msglen)) buffer)"
  using assms
  by (auto simp add: process_buffer_iter_def py_slices MSG_HEADER_LENGTH_def)

text \<open>
  C6, as amended. Let the scanner, after \<open>n\<close> passes on the buffer it was called
  with, be left with a buffer of more than 24 bytes that starts with a complete frame:
  the length field, as the scanner reads it, is \<open>msglen \<ge> 0\<close> (that is, the field is
  below \<open>2^31\<close>) and the buffer left has at least \<open>24 + msglen\<close> bytes. If the command
  of the frame is not \<^verbatim>\<open>version\<close>, the next pass writes exactly the \<open>24 + msglen\<close>
  bytes of the frame, unchanged, after the chunks of the passes before. If the call
  returns, the chunks it has written to the transport are those of the passes before,
  then the frame, then what a call on the rest writes; and the call does return when
  the rest has no more than 24 bytes.
\<close>

theorem unaltered_frame_written:
  assumes reach: "process_buffer_passes tf h n buffer0 = Some (chunks, buffer)"
    and entered: "MSG_HEADER_LENGTH < int (length buffer)"
    and len: "unpack_le_i (py_slice buffer 16 20) = Inr msglen"
    and nonneg: "0 \<le> msglen"
    and complete: "MSG_HEADER_LENGTH + msglen \<le> int (length buffer)"
    and cmd: "split_first 0 (py_slice buffer 4 16) \<noteq> version_command"
    and frame: "frame = take (nat (24 + msglen)) buffer"
    and rest: "rest = drop (nat (24 + msglen)) buffer"
  shows "process_buffer_iter tf h buffer = Continue frame rest
         \<and> process_buffer_passes tf h (Suc n) buffer0 = Some (chunks @ [frame], rest)
         \<and> process_buffer tf h buffer0 transport =
             map_option (\<lambda>(log, res). (transport @ chunks @ [frame] @ log, res))
               (process_buffer tf h rest [])
         \<and> (int (length rest) \<le> MSG_HEADER_LENGTH \<longrightarrow>
               process_buffer tf h buffer0 transport =
                 Some (transport @ chunks @ [frame], Inr (Bytes rest)))"
proof -
  have pass: "process_buffer_iter tf h buffer = Continue frame rest"
    unfolding frame rest by (rule iter_unaltered [OF len nonneg complete cmd])
  from pass process_buffer_after_passes [OF reach entered pass]
  show ?thesis by blast
qed

text \<open>
  The amended C6 at a buffer that holds a \<^verbatim>\<open>version\<close>, a \<^verbatim>\<open>ping\<close> and a \<^verbatim>\<open>verack\<close>
  frame: after the first pass the \<^verbatim>\<open>ping\<close> frame is at the head, its 32 bytes are
  written as they are, and the call returns with the \<^verbatim>\<open>verack\<close> frame left.
\<close>

theorem unaltered_frame_written_witness:
  "process_buffer_passes sample_tf sample_hub 1 (version_frame @ ping_frame @ verack_frame)
     = Some ([rewritten_version_frame], ping_frame @ verack_frame)
   \<and> unpack_le_i (py_slice (ping_frame @ verack_frame) 16 20) = Inr 8
   \<and> split_first 0 (py_slice (ping_frame @ verack_frame) 4 16) \<noteq> version_command
   \<and> process_buffer_iter sample_tf sample_hub (ping_frame @ verack_frame) =
        Continue ping_frame verack_frame
   \<and> process_buffer_passes sample_tf sample_hub 2 (version_frame @ ping_frame @ verack_frame)
     = Some ([rewritten_version_frame, ping_frame], verack_frame)
   \<and> process_buffer sample_tf sample_hub (version_frame @ ping_frame @ verack_frame) [] =
        Some ([rewritten_version_frame, ping_frame], Inr (Bytes verack_frame))"
proof -
  have 0: "process_buffer_passes sample_tf sample_hub 1
      (version_frame @ ping_frame @ verack_frame)
     = Some ([rewritten_version_frame], ping_frame @ verack_frame)"
    by code_simp
  have 1: "MSG_HEADER_LENGTH < int (length (ping_frame @ verack_frame))"
    by code_simp
  have 2: "unpack_le_i (py_slice (ping_frame @ verack_frame) 16 20) = Inr 8"
    by code_simp
  have 3: "(0::int) \<le> 8" by simp
  have 4: "MSG_HEADER_LENGTH + 8 \<le> int (length (ping_frame @ verack_frame))"
    by code_simp
  have 5: "split_first 0 (py_slice (ping_frame @ verack_frame) 4 16) \<noteq> version_command"
    by code_simp
  have 6: "ping_frame = take (nat (24 + 8)) (ping_frame @ verack_frame)"
    by code_simp
  have 7: "verack_frame = drop (nat (24 + 8)) (ping_frame @ verack_frame)"
    by code_simp
  have 8: "int (length verack_frame) \<le> MSG_HEADER_LENGTH"
    by code_simp
  have 9: "Suc 1 = 2" by simp
  from unaltered_frame_written [OF 0 1 2 3 4 5 6 7, of "[]"] 8
  have "process_buffer_iter sample_tf sample_hub (ping_frame @ verack_frame) =
        Continue ping_frame verack_frame"
    and "process_buffer_passes sample_tf sample_hub (Suc 1)
      (version_frame @ ping_frame @ verack_frame)
     = Some ([rewritten_version_frame, ping_frame], verack_frame)"
    and "process_buffer sample_tf sample_hub (version_frame @ ping_frame @ verack_frame) [] =
        Some ([rewritten_version_frame, ping_frame], Inr (Bytes verack_frame))"
    unfolding append_Nil append_Cons by blast+
  with 0 2 5 show ?thesis by (simp only: 9 simp_thms)
qed

text \<open>
  C6 as stated fails at a buffer that holds one \<^verbatim>\<open>verack\<close> frame and nothing else.
  The frame is complete (24 bytes, length field 0) and is not \<^verbatim>\<open>version\<close>, but the
  loop is entered only with more than 24 bytes: nothing is written, and the frame stays
  in the buffer that is returned.
\<close>

theorem verack_frame_not_written:
  "length verack_frame = 24
   \<and> unpack_le_i (py_slice verack_frame 16 20) = Inr 0
   \<and> split_first 0 (py_slice verack_frame 4 16) \<noteq> version_command
   \<and> process_buffer sample_tf sample_hub verack_frame [] = Some ([], Inr (Bytes verack_frame))"
  by code_simp

subsection \<open>\<^verbatim>\<open>version\<close> frames\<close>

lemma unpack_be_H_length: "unpack_be_H bs = Inr p \<Longrightarrow> length bs = 2"
  by (cases bs rule: unpack_be_H.cases) simp_all

lemma unpack_be_H_pack:
  assumes "0 \<le> v" and "v \<le> 65535"
  shows "unpack_be_H [word_of_int (v div 256), word_of_int (v mod 256)] = Inr v"
proof -
  have hi: "uint (word_of_int (v div 256) :: byte) = v div 256"
    using assms by (simp add: uint_word_of_int take_bit_eq_mod)
  have lo: "uint (word_of_int (v mod 256) :: byte) = v mod 256"
    by (simp add: uint_word_of_int take_bit_eq_mod)
  show ?thesis by (simp add: hi lo)
qed

lemma iter_version:
  assumes len: "unpack_le_i (py_slice buffer 16 20) = Inr msglen"
    and nonneg: "0 \<le> msglen"
    and complete: "MSG_HEADER_LENGTH + msglen \<le> int (length buffer)"
    and cmd: "split_first 0 (py_slice buffer 4 16) = version_command"
    and msg: "msg = take (nat msglen) (drop 24 buffer)"
    and port: "unpack_be_H (py_slice msg 70 72) = Inr node_port"
    and nz: "node_port \<noteq> 0"
    and known: "ports2node_map h node_port = Some node_idx"
    and proxy: "proxy_port = get_proxy_port tf h node_idx"
    and range: "0 \<le> proxy_port" "proxy_port \<le> 65535"
    and msg': "msg' = take 70 msg @ [word_of_int (proxy_port div 256),
                 word_of_int (proxy_port mod 256)] @ drop 72 msg"
  shows "process_buffer_iter tf h buffer =
           Continue (take 20 buffer @ take 4 (hash256 tf msg') @ msg')
             (drop (nat (24 + msglen)) buffer)"
  using assms
  by (simp add: process_buffer_iter_def py_slices pack_be_H_def
      MSG_HEADER_LENGTH_def VERSION_PORT_OFFSET_def nat_add_distrib Let_def)

lemma payload_long:
  assumes "msg = take (nat msglen) (drop 24 buffer)"
    and "unpack_be_H (py_slice msg 70 72) = Inr node_port"
  shows "72 \<le> length msg" and "72 \<le> msglen" and "96 \<le> length buffer"
proof -
  from assms(2) have "length (py_slice msg 70 72) = 2"
    by (rule unpack_be_H_length)
  then show "72 \<le> length msg"
    by (simp add: py_slices)
  with assms(1) show "72 \<le> msglen" and "96 \<le> length buffer"
    by auto
qed

lemma rewritten_payload:
  assumes long: "72 \<le> length msg"
    and msg': "msg' = take 70 msg @ [hi, lo] @ drop 72 msg"
  shows "length msg' = length msg"
    and "\<forall>k < length msg. k \<noteq> 70 \<and> k \<noteq> 71 \<longrightarrow> msg' ! k = msg ! k"
    and "py_slice msg' 70 72 = [hi, lo]"
proof -
  from long show "length msg' = length msg"
    by (simp add: msg')
  show "\<forall>k < length msg. k \<noteq> 70 \<and> k \<noteq> 71 \<longrightarrow> msg' ! k = msg ! k"
  proof (intro allI impI)
    fix k
    assume k: "k < length msg" and other: "k \<noteq> 70 \<and> k \<noteq> 71"
    show "msg' ! k = msg ! k"
    proof (cases "k < 70")
      case True
      with long show ?thesis by (simp add: msg' nth_append)
    next
      case False
      with other have "72 \<le> k" by arith
      then obtain j where j: "k = 72 + j" using le_Suc_ex by blast
      with long k show ?thesis
        by (simp add: msg' nth_append nth_Cons')
    qed
  qed
  from long show "py_slice msg' 70 72 = [hi, lo]"
    by (simp add: msg' py_slices)
qed

text \<open>
  C1, as amended. Let the scanner, after \<open>n\<close> passes on the buffer it was called
  with, be left with a buffer that starts with a complete \<^verbatim>\<open>version\<close> frame: the
  length field, as the scanner reads it, is \<open>msglen \<ge> 0\<close> (that is, the field is below
  \<open>2^31\<close>), the buffer left has at least \<open>24 + msglen\<close> bytes, and \<open>msg\<close> is the
  payload. Let the two bytes at offset 70 of the payload be there and give, read
  big-endian, a port that is not 0 and that \<^verbatim>\<open>ports2node_map\<close> maps to \<open>node_idx\<close>, and
  let the proxy port of that node be a port number (\<open>0 .. 65535\<close>). Then the next pass
  writes a frame made of the first 20 bytes of the header, the first four bytes of
  \<^verbatim>\<open>hash256\<close> of the new payload, and the new payload. If the call returns, the chunks
  it has written to the transport are those of the passes before, then this frame, then
  what a call on the rest writes; and the call does return when the rest has no more
  than 24 bytes. The new payload has the length of the old one and differs from it at
  the offsets 70 and 71 only, where it holds the proxy port, big-endian.
\<close>

theorem version_frame_rewritten:
  assumes reach: "process_buffer_passes tf h n buffer0 = Some (chunks, buffer)"
    and len: "unpack_le_i (py_slice buffer 16 20) = Inr msglen"
    and nonneg: "0 \<le> msglen"
    and complete: "MSG_HEADER_LENGTH + msglen \<le> int (length buffer)"
    and cmd: "split_first 0 (py_slice buffer 4 16) = version_command"
    and msg: "msg = take (nat msglen) (drop 24 buffer)"
    and port: "unpack_be_H (py_slice msg 70 72) = Inr node_port"
    and nz: "node_port \<noteq> 0"
    and known: "ports2node_map h node_port = Some node_idx"
    and proxy: "proxy_port = get_proxy_port tf h node_idx"
    and range: "0 \<le> proxy_port" "proxy_port \<le> 65535"
    and msg': "msg' = take 70 msg @ [word_of_int (proxy_port div 256),
                 word_of_int (proxy_port mod 256)] @ drop 72 msg"
    and frame': "frame' = take 20 buffer @ take 4 (hash256 tf msg') @ msg'"
    and rest: "rest = drop (nat (24 + msglen)) buffer"
  shows "process_buffer_iter tf h buffer = Continue frame' rest
         \<and> process_buffer_passes tf h (Suc n) buffer0 = Some (chunks @ [frame'], rest)
         \<and> process_buffer tf h buffer0 transport =
             map_option (\<lambda>(log, res). (transport @ chunks @ [frame'] @ log, res))
               (process_buffer tf h rest [])
         \<and> (int (length rest) \<le> MSG_HEADER_LENGTH \<longrightarrow>
               process_buffer tf h buffer0 transport =
                 Some (transport @ chunks @ [frame'], Inr (Bytes rest)))
         \<and> length msg' = length msg
         \<and> (\<forall>k < length msg. k \<noteq> 70 \<and> k \<noteq> 71 \<longrightarrow> msg' ! k = msg ! k)
         \<and> unpack_be_H (py_slice msg' 70 72) = Inr proxy_port"
proof -
  note long = payload_long [OF msg port]
  have pass: "process_buffer_iter tf h buffer = Continue frame' rest"
    unfolding frame' rest
    by (rule iter_version [OF len nonneg complete cmd msg port nz known proxy range msg'])
  from long(3) have entered: "MSG_HEADER_LENGTH < int (length buffer)"
    by (simp add: MSG_HEADER_LENGTH_def)
  note scan = process_buffer_after_passes [OF reach entered pass]
  note same = rewritten_payload [OF long(1) msg']
  from same(3) range have "unpack_be_H (py_slice msg' 70 72) = Inr proxy_port"
    by (simp only: unpack_be_H_pack)
  with pass scan same(1,2) show ?thesis by blast
qed

text \<open>
  The amended C1 at a \<^verbatim>\<open>version\<close> frame that advertises 11000, the port of node 0,
  behind a \<^verbatim>\<open>ping\<close> frame and before the beginning of another one, and at the same
  frame alone: the frame written advertises 11003, the proxy port of node 0, and
  carries the new checksum.
\<close>

theorem version_frame_rewritten_witness:
  "process_buffer_passes sample_tf sample_hub 1 (ping_frame @ version_frame @ partial_ping_frame)
     = Some ([ping_frame], version_frame @ partial_ping_frame)
   \<and> unpack_le_i (py_slice (version_frame @ partial_ping_frame) 16 20) = Inr 72
   \<and> split_first 0 (py_slice (version_frame @ partial_ping_frame) 4 16) = version_command
   \<and> unpack_be_H (py_slice (replicate 70 7 @ [0x2a, 0xf8]) 70 72) = Inr 11000
   \<and> ports2node_map sample_hub 11000 = Some 0
   \<and> get_proxy_port sample_tf sample_hub 0 = 11003
   \<and> process_buffer_iter sample_tf sample_hub (version_frame @ partial_ping_frame) =
       Continue rewritten_version_frame partial_ping_frame
   \<and> process_buffer_passes sample_tf sample_hub 2
         (ping_frame @ version_frame @ partial_ping_frame)
     = Some ([ping_frame, rewritten_version_frame], partial_ping_frame)
   \<and> process_buffer sample_tf sample_hub (ping_frame @ version_frame @ partial_ping_frame) [] =
       Some ([ping_frame, rewritten_version_frame], Inr PyNone)
   \<and> process_buffer sample_tf sample_hub version_frame [] =
       Some ([rewritten_version_frame], Inr (Bytes []))
   \<and> unpack_be_H (py_slice (replicate 70 7 @ [0x2a, 0xfb]) 70 72) = Inr 11003"
proof -
  let ?buffer = "version_frame @ partial_ping_frame"
  have 0: "process_buffer_passes sample_tf sample_hub 1
      (ping_frame @ version_frame @ partial_ping_frame) = Some ([ping_frame], ?buffer)"
    by code_simp
  have 1: "unpack_le_i (py_slice ?buffer 16 20) = Inr 72"
    by code_simp
  have 2: "(0::int) \<le> 72" by simp
  have 3: "MSG_HEADER_LENGTH + 72 \<le> int (length ?buffer)"
    by code_simp
  have 4: "split_first 0 (py_slice ?buffer 4 16) = version_command"
    by code_simp
  have 5: "replicate 70 7 @ [0x2a, 0xf8] = take (nat 72) (drop 24 ?buffer)"
    by code_simp
  have 6: "unpack_be_H (py_slice (replicate 70 7 @ [0x2a, 0xf8]) 70 72) = Inr 11000"
    by code_simp
  have 7: "(11000::int) \<noteq> 0" by simp
  have 8: "ports2node_map sample_hub 11000 = Some 0"
    by code_simp
  have 9: "11003 = get_proxy_port sample_tf sample_hub 0"
    by code_simp
  have 10: "(0::int) \<le> 11003" "(11003::int) \<le> 65535" by simp_all
  have 11: "replicate 70 7 @ [0x2a, 0xfb] =
      take 70 (replicate 70 7 @ [0x2a, 0xf8]) @ [word_of_int (11003 div 256),
                 word_of_int (11003 mod 256)] @ drop 72 (replicate 70 7 @ [0x2a, 0xf8])"
    by code_simp
  have 12: "rewritten_version_frame =
      take 20 ?buffer @ take 4 (hash256 sample_tf (replicate 70 7 @ [0x2a, 0xfb]))
        @ replicate 70 7 @ [0x2a, 0xfb]"
    by code_simp
  have 13: "partial_ping_frame = drop (nat (24 + 72)) ?buffer"
    by code_simp
  have 14: "process_buffer sample_tf sample_hub partial_ping_frame [] = Some ([], Inr PyNone)"
    by code_simp
  have 15: "Suc 1 = 2" by simp
  from version_frame_rewritten [OF 0 1 2 3 4 5 6 7 8 9 10 11 12 13, of "[]"]
  have a: "process_buffer_iter sample_tf sample_hub ?buffer =
       Continue rewritten_version_frame partial_ping_frame"
    and b: "process_buffer_passes sample_tf sample_hub (Suc 1)
         (ping_frame @ version_frame @ partial_ping_frame)
     = Some ([ping_frame] @ [rewritten_version_frame], partial_ping_frame)"
    and c: "process_buffer sample_tf sample_hub
        (ping_frame @ version_frame @ partial_ping_frame) [] =
       map_option (\<lambda>(log, res). ([] @ [ping_frame] @ [rewritten_version_frame] @ log, res))
         (process_buffer sample_tf sample_hub partial_ping_frame [])"
    and d: "unpack_be_H (py_slice (replicate 70 7 @ [0x2a, 0xfb]) 70 72) = Inr 11003"
    by blast+
  from c have c': "process_buffer sample_tf sample_hub
        (ping_frame @ version_frame @ partial_ping_frame) [] =
       Some ([ping_frame, rewritten_version_frame], Inr PyNone)"
    by (simp add: 14)
  have 20: "process_buffer_passes sample_tf sample_hub 0 version_frame = Some ([], version_frame)"
    by simp
  have 21: "unpack_le_i (py_slice version_frame 16 20) = Inr 72"
    by code_simp
  have 23: "MSG_HEADER_LENGTH + 72 \<le> int (length version_frame)"
    by code_simp
  have 24: "split_first 0 (py_slice version_frame 4 16) = version_command"
    by code_simp
  have 25: "replicate 70 7 @ [0x2a, 0xf8] = take (nat 72) (drop 24 version_frame)"
    by code_simp
  have 26: "rewritten_version_frame =
      take 20 version_frame @ take 4 (hash256 sample_tf (replicate 70 7 @ [0x2a, 0xfb]))
        @ replicate 70 7 @ [0x2a, 0xfb]"
    by code_simp
  have 27: "[] = drop (nat (24 + 72)) version_frame"
    by code_simp
  have 28: "int (length ([]::bytes)) \<le> MSG_HEADER_LENGTH"
    by (simp add: MSG_HEADER_LENGTH_def)
  from version_frame_rewritten [OF 20 21 2 23 24 25 6 7 8 9 10 11 26 27, of "[]"] 28
  have e: "process_buffer sample_tf sample_hub version_frame [] =
       Some ([] @ [] @ [rewritten_version_frame], Inr (Bytes []))"
    by blast
  from b have b': "process_buffer_passes sample_tf sample_hub 2
         (ping_frame @ version_frame @ partial_ping_frame)
     = Some ([ping_frame, rewritten_version_frame], partial_ping_frame)"
    by (simp only: 15 append_Cons append_Nil)
  from e have e': "process_buffer sample_tf sample_hub version_frame [] =
       Some ([rewritten_version_frame], Inr (Bytes []))"
    by (simp only: append_Nil)
  from 0 1 4 6 8 9 [symmetric] a b' c' e' d show ?thesis
    by blast
qed

text \<open>
  C1 as stated fails at a buffer that holds two \<^verbatim>\<open>version\<close> frames, the first one
  advertising the port 9999, which is the port of no node, the second one complete and
  advertising 11000, the port of node 0. The scanner raises \<^verbatim>\<open>KeyError\<close> at the first
  frame; the second frame is never reached and nothing is written for it.
\<close>

theorem version_frame_behind_unknown_port:
  "drop 96 (unknown_port_frame @ version_frame) = version_frame
   \<and> length version_frame = 96
   \<and> unpack_le_i (py_slice version_frame 16 20) = Inr 72
   \<and> split_first 0 (py_slice version_frame 4 16) = version_command
   \<and> unpack_be_H (py_slice (py_slice version_frame 24 96) 70 72) = Inr 11000
   \<and> ports2node_map sample_hub 11000 = Some 0
   \<and> process_buffer sample_tf sample_hub (unknown_port_frame @ version_frame) [] =
       Some ([], Inl (KeyError 9999))"
  by code_simp

text \<open>
  Frames that arrive together are handled one after the other: a \<^verbatim>\<open>ping\<close>, a
  \<^verbatim>\<open>version\<close> and a \<^verbatim>\<open>ping\<close> frame in one buffer give three chunks, the second one
  rewritten.
\<close>

lemma coalesced_frames:
  "process_buffer sample_tf sample_hub (ping_frame @ version_frame @ ping_frame) [] =
     Some ([ping_frame,
            magic @ version_command_padded @ [72, 0, 0, 0] @ [0xfb, 0x2a, 7, 7]
              @ replicate 70 7 @ [0x2a, 0xfb],
            ping_frame],
           Inr (Bytes []))"
  by code_simp

subsection \<open>Incomplete frames\<close>

lemma iter_incomplete:
  assumes "unpack_le_i (py_slice buffer 16 20) = Inr msglen"
    and "int (length buffer) < MSG_HEADER_LENGTH + msglen"
  shows "process_buffer_iter tf h buffer = Return PyNone"
  using assms by (simp add: process_buffer_iter_def)

lemma process_buffer_incomplete:
  assumes "MSG_HEADER_LENGTH < int (length buffer)"
    and "unpack_le_i (py_slice buffer 16 20) = Inr msglen"
    and "int (length buffer) < MSG_HEADER_LENGTH + msglen"
  shows "process_buffer tf h buffer transport = Some (transport, Inr PyNone)"
  using assms(1) iter_incomplete [OF assms(2,3)] by (rule process_buffer_return)

lemma partial_ping_frame_None:
  "process_buffer tf h partial_ping_frame transport = Some (transport, Inr PyNone)"
proof -
  have 1: "MSG_HEADER_LENGTH < int (length partial_ping_frame)" by code_simp
  have 2: "unpack_le_i (py_slice partial_ping_frame 16 20) = Inr 8" by code_simp
  have 3: "int (length partial_ping_frame) < MSG_HEADER_LENGTH + 8" by code_simp
  show ?thesis by (rule process_buffer_incomplete [OF 1 2 3])
qed

text \<open>
  C2 says that the scanner returns the buffer itself when the frame at its head is
  incomplete. The sample buffer has 25 bytes and starts with a header that announces 8
  bytes of payload: the scanner writes nothing, but what it returns is \<^verbatim>\<open>None\<close>, the
  value of the bare \<^verbatim>\<open>return\<close>, and not the buffer.
\<close>

theorem partial_frame_returns_None:
  "length partial_ping_frame = 25
   \<and> unpack_le_i (py_slice partial_ping_frame 16 20) = Inr 8
   \<and> process_buffer tf h partial_ping_frame transport = Some (transport, Inr PyNone)"
proof -
  have 1: "length partial_ping_frame = 25" by code_simp
  have 2: "unpack_le_i (py_slice partial_ping_frame 16 20) = Inr 8" by code_simp
  from 1 2 partial_ping_frame_None [of tf h transport] show ?thesis by simp
qed

text \<open>
  What follows from it in the handlers: \<^verbatim>\<open>recvbuf\<close> is set to \<^verbatim>\<open>None\<close>, the bytes
  received are lost, and \<^verbatim>\<open>self.recvbuf += data\<close> raises at the next data.
\<close>

lemma recvbuf_None_TypeError:
  "data \<noteq> [] \<Longrightarrow> recvbuf p = PyNone \<Longrightarrow>
   relay_received_data tf peers h p data = Some (h, p, Some TypeError)"
  by (simp add: relay_received_data_def)

lemma relay_received_data_nothing_written:
  assumes "data \<noteq> []"
    and "recvbuf p = Bytes b"
    and "peers h (sender2receiver_pair p) = Some tr"
    and "process_buffer tf h (b @ data) (written h tr) = Some (written h tr, res)"
  shows "relay_received_data tf peers h p data =
           Some (case res of
                   Inl e \<Rightarrow> (h, p\<lparr>recvbuf := Bytes (b @ data)\<rparr>, Some e)
                 | Inr r \<Rightarrow> (h, p\<lparr>recvbuf := r\<rparr>, None))"
  using assms by (simp add: relay_received_data_def split: sum.split)

lemma recvbuf_lost:
  "NodeProxy_handle_received_data sample_tf sample_open_hub sample_handler partial_ping_frame
     = Some (sample_open_hub, \<lparr>sender2receiver_pair = (0, 1), recvbuf = PyNone\<rparr>, None)"
proof -
  have 1: "partial_ping_frame \<noteq> []"
    by (simp add: partial_ping_frame_def magic_def)
  have 2: "recvbuf sample_handler = Bytes []"
    by (simp add: sample_handler_def)
  have 3: "proxy2receiver_transports sample_open_hub (sender2receiver_pair sample_handler) = Some 1"
    by (simp add: sample_handler_def sample_open_hub_fields)
  have 4: "process_buffer sample_tf sample_open_hub ([] @ partial_ping_frame)
             (written sample_open_hub 1) = Some (written sample_open_hub 1, Inr PyNone)"
    by (simp add: partial_ping_frame_None)
  show ?thesis
    unfolding NodeProxy_handle_received_data_def
    using relay_received_data_nothing_written
          [where peers = proxy2receiver_transports, OF 1 2 3 4]
    by (simp add: sample_handler_def)
qed

subsection \<open>The length field\<close>

text \<open>
  A length field below \<open>2^31\<close> is read as its value, little-endian; a length field
  whose high bit is set is read as a negative number.
\<close>

lemma unpack_le_i_unsigned:
  assumes "uint b0 + 256 * uint b1 + 65536 * uint b2 + 16777216 * uint b3 < 2147483648"
  shows "unpack_le_i [b0, b1, b2, b3] =
           Inr (uint b0 + 256 * uint b1 + 65536 * uint b2 + 16777216 * uint b3)"
  using assms by (simp add: Let_def)

lemma unpack_le_i_high_bit:
  assumes "128 \<le> uint b3"
  shows "\<exists>v < 0. unpack_le_i [b0, b1, b2, b3] = Inr v"
proof -
  define u where "u = uint b0 + 256 * uint b1 + 65536 * uint b2 + 16777216 * uint b3"
  have "uint b0 < 256" "uint b1 < 256" "uint b2 < 256" "uint b3 < 256"
    using uint_bounded [of b0] uint_bounded [of b1] uint_bounded [of b2] uint_bounded [of b3]
    by simp_all
  moreover have "0 \<le> uint b0" "0 \<le> uint b1" "0 \<le> uint b2" by simp_all
  ultimately have "2147483648 \<le> u" "u < 4294967296"
    using assms unfolding u_def by arith+
  then have "unpack_le_i [b0, b1, b2, b3] = Inr (u - 4294967296)" "u - 4294967296 < 0"
    by (simp_all add: u_def Let_def)
  then show ?thesis by blast
qed

text \<open>
  C4 says that the length field is read as an unsigned number. The sample buffer has 25
  bytes and the length field \<open>0xffffffff\<close>: the scanner reads \<open>-1\<close>, not
  \<open>4294967295\<close>. It therefore takes the frame to be complete, writes the first 23
  bytes of the buffer and returns the last two.
\<close>

theorem length_field_read_signed:
  "unpack_le_i (py_slice high_bit_frame 16 20) = Inr (- 1)
   \<and> process_buffer tf h high_bit_frame transport =
       Some (transport @ [take 23 high_bit_frame], Inr (Bytes (drop 23 high_bit_frame)))"
proof -
  have 1: "MSG_HEADER_LENGTH < int (length high_bit_frame)" by code_simp
  have 2: "unpack_le_i (py_slice high_bit_frame 16 20) = Inr (- 1)" by code_simp
  have 3: "process_buffer_iter tf h high_bit_frame =
      Continue (take 23 high_bit_frame) (drop 23 high_bit_frame)"
    by code_simp
  have 4: "int (length (drop 23 high_bit_frame)) \<le> MSG_HEADER_LENGTH" by code_simp
  from process_buffer_continue [OF 1 3] process_buffer_short [OF 4] 2
  show ?thesis by simp
qed

subsection \<open>Termination of the scanner\<close>

text \<open>
  A pass that ends at the bottom of the loop with the buffer it started from is
  repeated for ever: the call does not return.
\<close>

lemma process_buffer_stuck_aux:
  assumes "process_buffer tf h buffer transport = Some y"
  shows "\<not> (MSG_HEADER_LENGTH < int (length buffer)
            \<and> (\<exists>chunk. process_buffer_iter tf h buffer = Continue chunk buffer))"
proof (rule process_buffer.raw_induct
    [where P = "\<lambda>tf h buffer transport y. \<not> (MSG_HEADER_LENGTH < int (length buffer)
            \<and> (\<exists>chunk. process_buffer_iter tf h buffer = Continue chunk buffer))",
     OF _ assms])
  fix f :: "test_framework \<Rightarrow> hub \<Rightarrow> bytes \<Rightarrow> bytes list \<Rightarrow> (bytes list \<times> (py_error + retval)) option"
  fix tf h buffer transport y
  assume IH: "\<And>tf h buffer transport y. f tf h buffer transport = Some y \<Longrightarrow>
     \<not> (MSG_HEADER_LENGTH < int (length buffer)
            \<and> (\<exists>chunk. process_buffer_iter tf h buffer = Continue chunk buffer))"
  assume step: "(if MSG_HEADER_LENGTH < int (length buffer)
      then case process_buffer_iter tf h buffer of
           Return r \<Rightarrow> Some (transport, Inr r)
           | Raise e \<Rightarrow> Some (transport, Inl e)
           | Continue chunk buffer' \<Rightarrow> f tf h buffer' (transport @ [chunk])
      else Some (transport, Inr (Bytes buffer))) = Some y"
  show "\<not> (MSG_HEADER_LENGTH < int (length buffer)
            \<and> (\<exists>chunk. process_buffer_iter tf h buffer = Continue chunk buffer))"
  proof
    assume stuck: "MSG_HEADER_LENGTH < int (length buffer)
            \<and> (\<exists>chunk. process_buffer_iter tf h buffer = Continue chunk buffer)"
    then obtain chunk where c: "process_buffer_iter tf h buffer = Continue chunk buffer"
      by blast
    from step stuck c have "f tf h buffer (transport @ [chunk]) = Some y"
      by simp
    from IH [OF this] stuck show False by blast
  qed
qed

lemma process_buffer_stuck:
  assumes "MSG_HEADER_LENGTH < int (length buffer)"
    and "process_buffer_iter tf h buffer = Continue chunk buffer"
  shows "process_buffer tf h buffer transport = None"
proof (cases "process_buffer tf h buffer transport")
  case None
  then show ?thesis .
next
  case (Some y)
  from process_buffer_stuck_aux [OF this] assms show ?thesis by blast
qed

text \<open>
  C5 says that every frame consumed shortens the buffer by at least 24 bytes, so that
  the scanner terminates on every buffer. The sample buffer has 25 bytes and the length
  field \<open>0xffffffe8\<close>, which the scanner reads as \<open>-24\<close>: the pass writes the empty
  chunk \<^verbatim>\<open>buffer[:0]\<close> and goes on with \<^verbatim>\<open>buffer[0:]\<close>, the same buffer, and the call
  never returns.
\<close>

theorem scanner_never_returns:
  "length stuck_frame = 25
   \<and> unpack_le_i (py_slice stuck_frame 16 20) = Inr (- 24)
   \<and> process_buffer_iter tf h stuck_frame = Continue [] stuck_frame
   \<and> process_buffer tf h stuck_frame transport = None"
proof -
  have 1: "MSG_HEADER_LENGTH < int (length stuck_frame)" by code_simp
  have 2: "unpack_le_i (py_slice stuck_frame 16 20) = Inr (- 24)" by code_simp
  have 3: "process_buffer_iter tf h stuck_frame = Continue [] stuck_frame"
    by code_simp
  have 4: "length stuck_frame = 25" by code_simp
  from process_buffer_stuck [OF 1 3] 2 3 4 show ?thesis by simp
qed

text \<open>
  The passes tell what is written also where the call never returns: with a
  \<^verbatim>\<open>version\<close> frame before the sample buffer, the first pass writes the rewritten
  frame, and the loop then goes on for ever.
\<close>

lemma version_frame_before_stuck_frame:
  "process_buffer_passes sample_tf sample_hub 1 (version_frame @ stuck_frame) =
     Some ([rewritten_version_frame], stuck_frame)"
  "process_buffer sample_tf sample_hub (version_frame @ stuck_frame) transport = None"
proof -
  show first: "process_buffer_passes sample_tf sample_hub 1 (version_frame @ stuck_frame) =
     Some ([rewritten_version_frame], stuck_frame)"
    by code_simp
  have 1: "MSG_HEADER_LENGTH < int (length stuck_frame)" by code_simp
  have 2: "process_buffer_iter sample_tf sample_hub stuck_frame = Continue [] stuck_frame"
    by code_simp
  from process_buffer_passes_loop [OF first, of transport] process_buffer_stuck [OF 1 2]
  show "process_buffer sample_tf sample_hub (version_frame @ stuck_frame) transport = None"
    by simp
qed

text \<open>
  Where every length field that the scanner reads is non-negative, each pass drops at
  least 24 bytes and the call returns: the signed reading of the field is the only way
  for the loop to go on for ever.
\<close>

lemma iter_rest:
  assumes "unpack_le_i (py_slice buffer 16 20) = Inr msglen"
    and "0 \<le> msglen"
    and "process_buffer_iter tf h buffer = Continue chunk buffer'"
  shows "buffer' = drop (nat (24 + msglen)) buffer"
  using assms
  by (auto simp add: process_buffer_iter_def py_slices MSG_HEADER_LENGTH_def Let_def
      split: if_splits sum.splits option.splits)

lemma unpack_le_i_total: "length bs = 4 \<Longrightarrow> \<exists>v. unpack_le_i bs = Inr v"
  by (cases bs rule: unpack_le_i.cases) (simp_all add: Let_def)

lemma process_buffer_returns:
  assumes "\<forall>k msglen. unpack_le_i (py_slice (drop k buffer) 16 20) = Inr msglen \<longrightarrow> 0 \<le> msglen"
  shows "\<exists>r. process_buffer tf h buffer transport = Some r"
  using assms
proof (induction "length buffer" arbitrary: buffer transport rule: less_induct)
  case less
  show ?case
  proof (cases "MSG_HEADER_LENGTH < int (length buffer)")
    case False
    then show ?thesis by (simp add: process_buffer_short)
  next
    case True
    then have "length (py_slice buffer 16 20) = 4"
      by (simp add: py_slices MSG_HEADER_LENGTH_def)
    then obtain msglen where len: "unpack_le_i (py_slice buffer 16 20) = Inr msglen"
      using unpack_le_i_total by blast
    with less.prems [rule_format, of 0 msglen] have nonneg: "0 \<le> msglen" by simp
    show ?thesis
    proof (cases "process_buffer_iter tf h buffer")
      case (Return r)
      with True show ?thesis by (simp add: process_buffer_return)
    next
      case (Raise e)
      with True show ?thesis by (simp add: process_buffer_raise)
    next
      case (Continue chunk buffer')
      from iter_rest [OF len nonneg Continue]
      have rest: "buffer' = drop (nat (24 + msglen)) buffer" .
      with True nonneg have shorter: "length buffer' < length buffer"
        by (simp add: MSG_HEADER_LENGTH_def)
      have "\<forall>k m. unpack_le_i (py_slice (drop k buffer') 16 20) = Inr m \<longrightarrow> 0 \<le> m"
        using less.prems by (simp add: rest)
      from less.hyps [OF shorter this]
      obtain r where "process_buffer tf h buffer' (transport @ [chunk]) = Some r"
        by blast
      with process_buffer_continue [OF True Continue] show ?thesis by simp
    qed
  qed
qed

subsection \<open>An advertised port that is not in the table\<close>





subsection \<open>The port table\<close>

lemma set_node_ids: "set (node_ids h) = {0 ..< int (length (nodes h))}"
  by (simp add: node_ids_def image_int_atLeastLessThan)

lemma distinct_node_ids: "distinct (node_ids h)"
  by (simp add: node_ids_def distinct_map)

lemma register_ports_apply:
  "register_ports tf h m x k =
     (if k = get_proxy_port tf h x \<or> k = get_node_port tf x then Some x else m k)"
  by (simp add: register_ports_def)

lemma foldl_register_ports_lookup:
  assumes inj: "inj_on (p2p_port tf) {0 .. 2 * int (length (nodes h))}"
    and ids: "set ids \<subseteq> {0 ..< int (length (nodes h))}"
    and i: "i \<in> set ids"
  shows "foldl (register_ports tf h) m ids (get_node_port tf i) = Some i
         \<and> foldl (register_ports tf h) m ids (get_proxy_port tf h i) = Some i"
  using ids i
proof (induction ids rule: rev_induct)
  case Nil
  then show ?case by simp
next
  case (snoc x xs)
  let ?N = "int (length (nodes h))"
  from snoc.prems have x: "0 \<le> x" "x < ?N" and i: "0 \<le> i" "i < ?N"
    by auto
  show ?case
  proof (cases "i = x")
    case True
    then show ?thesis by (simp add: register_ports_apply)
  next
    case False
    with snoc.prems have "i \<in> set xs" by simp
    with snoc have IH: "foldl (register_ports tf h) m xs (get_node_port tf i) = Some i"
      "foldl (register_ports tf h) m xs (get_proxy_port tf h i) = Some i"
      by simp_all
    have in_range: "i \<in> {0 .. 2 * ?N}" "x \<in> {0 .. 2 * ?N}"
      "?N + 1 + i \<in> {0 .. 2 * ?N}" "?N + 1 + x \<in> {0 .. 2 * ?N}"
      using x i by simp_all
    have "p2p_port tf i \<noteq> p2p_port tf x"
      using inj in_range False by (auto dest: inj_onD)
    moreover have "p2p_port tf i \<noteq> p2p_port tf (?N + 1 + x)"
      using inj_onD [OF inj _ in_range(1) in_range(4)] x i by auto
    moreover have "p2p_port tf (?N + 1 + i) \<noteq> p2p_port tf x"
      using inj_onD [OF inj _ in_range(3) in_range(2)] x i by auto
    moreover have "p2p_port tf (?N + 1 + i) \<noteq> p2p_port tf (?N + 1 + x)"
      using inj_onD [OF inj _ in_range(3) in_range(4)] False by auto
    ultimately have other: "get_node_port tf i \<noteq> get_proxy_port tf h x"
      "get_node_port tf i \<noteq> get_node_port tf x"
      "get_proxy_port tf h i \<noteq> get_proxy_port tf h x"
      "get_proxy_port tf h i \<noteq> get_node_port tf x"
      by (simp_all add: get_node_port_def get_proxy_port_def)
    define m' where "m' = foldl (register_ports tf h) m xs"
    have step: "foldl (register_ports tf h) m (xs @ [x]) k =
        (if k = get_proxy_port tf h x \<or> k = get_node_port tf x then Some x else m' k)" for k
      unfolding m'_def by (simp only: foldl_append foldl.simps register_ports_apply)
    from IH have "m' (get_node_port tf i) = Some i" "m' (get_proxy_port tf h i) = Some i"
      by (simp_all only: m'_def)
    with other show ?thesis
      by (simp only: step if_False simp_thms)
  qed
qed

lemma dom_foldl_register_ports:
  "dom (foldl (register_ports tf h) m ids) =
     dom m \<union> get_node_port tf ` set ids \<union> get_proxy_port tf h ` set ids"
  by (induction ids arbitrary: m) (auto simp add: register_ports_def)

lemma sync_start_proxies_fields [simp]:
  "nodes (sync_start_proxies tf h) = nodes h"
  "ports2node_map (sync_start_proxies tf h) =
     foldl (register_ports tf h) (ports2node_map h) (node_ids h)"
  by (simp_all add: sync_start_proxies_def)

lemma get_proxy_port_sync [simp]:
  "get_proxy_port tf (sync_start_proxies tf h) = get_proxy_port tf h"
  by (simp add: get_proxy_port_def fun_eq_iff)

lemma ports_distinct:
  assumes inj: "inj_on (p2p_port tf) {0 .. 2 * int (length (nodes h))}"
  shows "distinct (map (get_node_port tf) (node_ids h) @ map (get_proxy_port tf h) (node_ids h))"
proof -
  let ?N = "int (length (nodes h))"
  let ?idx = "node_ids h @ map (\<lambda>i. ?N + 1 + i) (node_ids h)"
  have "distinct (map (\<lambda>i. ?N + 1 + i) (node_ids h))"
    by (simp add: distinct_map distinct_node_ids inj_on_def)
  then have d: "distinct ?idx"
    by (auto simp add: distinct_node_ids set_node_ids)
  have "set ?idx \<subseteq> {0 .. 2 * ?N}"
    by (auto simp add: set_node_ids)
  with inj have "inj_on (p2p_port tf) (set ?idx)"
    by (rule inj_on_subset)
  with d have "distinct (map (p2p_port tf) ?idx)"
    by (simp only: distinct_map simp_thms)
  also have "map (p2p_port tf) ?idx =
      map (get_node_port tf) (node_ids h) @ map (get_proxy_port tf h) (node_ids h)"
    by (simp add: get_node_port_def get_proxy_port_def comp_def)
  finally show ?thesis .
qed

text \<open>
  C9. Let the port allocator be injective on the indices \<open>0 .. 2 * N\<close>, where \<open>N\<close> is
  the number of nodes, and let \<open>h'\<close> be the hub after \<^verbatim>\<open>sync_start_proxies\<close>. Then for
  every node index \<open>i\<close> the table maps the node port and the proxy port of \<open>i\<close> to
  \<open>i\<close>, the proxy port of \<open>i\<close> being the node port of \<open>N + 1 + i\<close>; the \<open>2 * N\<close> ports
  stored are pairwise distinct; and if the table was empty before, as \<^verbatim>\<open>__init__\<close>
  leaves it, its keys are these ports and it has \<open>2 * N\<close> entries.
\<close>

theorem ports2node_map_built:
  assumes inj: "inj_on (p2p_port tf) {0 .. 2 * int (length (nodes h))}"
    and i: "0 \<le> i" "i < int (length (nodes h))"
    and h': "h' = sync_start_proxies tf h"
  shows "ports2node_map h' (get_node_port tf i) = Some i
         \<and> ports2node_map h' (get_proxy_port tf h' i) = Some i
         \<and> get_proxy_port tf h' i = get_node_port tf (int (length (nodes h')) + 1 + i)
         \<and> distinct (map (get_node_port tf) (node_ids h) @ map (get_proxy_port tf h') (node_ids h))
         \<and> (ports2node_map h = Map.empty \<longrightarrow>
              dom (ports2node_map h') =
                set (map (get_node_port tf) (node_ids h) @ map (get_proxy_port tf h') (node_ids h))
              \<and> card (dom (ports2node_map h')) = 2 * length (nodes h))"
proof -
  from i have "i \<in> set (node_ids h)"
    by (simp add: set_node_ids)
  from foldl_register_ports_lookup [OF inj _ this, of "ports2node_map h"]
  have lookup: "ports2node_map h' (get_node_port tf i) = Some i"
    "ports2node_map h' (get_proxy_port tf h' i) = Some i"
    by (simp_all add: h' set_node_ids)
  have proxy: "get_proxy_port tf h' i = get_node_port tf (int (length (nodes h')) + 1 + i)"
    by (simp add: get_proxy_port_def get_node_port_def)
  let ?keys = "map (get_node_port tf) (node_ids h) @ map (get_proxy_port tf h') (node_ids h)"
  have d: "distinct ?keys"
    using ports_distinct [OF inj] by (simp add: h')
  have keys: "dom (ports2node_map h') = set ?keys \<and> card (dom (ports2node_map h')) = 2 * length (nodes h)"
    if "ports2node_map h = Map.empty"
  proof -
    from that have dom: "dom (ports2node_map h') = set ?keys"
      by (simp add: h' dom_foldl_register_ports)
    moreover have "card (set ?keys) = length ?keys"
      using d by (rule distinct_card)
    moreover have "length ?keys = 2 * length (nodes h)"
      by (simp add: node_ids_def)
    ultimately show ?thesis by simp
  qed
  from lookup proxy d keys show ?thesis by blast
qed

text \<open>
  C9 at the sample hub of two nodes, whose allocator gives the port \<open>11000 + n\<close>.
\<close>

theorem ports2node_map_built_witness:
  "inj_on (p2p_port sample_tf) {0 .. 2 * int (length (nodes (init_hub [[], []] ''127.0.0.1'')))}
   \<and> get_node_port sample_tf 1 = 11001
   \<and> get_proxy_port sample_tf sample_hub 1 = 11004
   \<and> ports2node_map sample_hub 11001 = Some 1
   \<and> ports2node_map sample_hub 11004 = Some 1
   \<and> card (dom (ports2node_map sample_hub)) = 4"
proof -
  have 1: "inj_on (p2p_port sample_tf)
      {0 .. 2 * int (length (nodes (init_hub [[], []] ''127.0.0.1'')))}"
    by (simp add: sample_tf_def inj_on_def)
  have 2: "(0::int) \<le> 1" "1 < int (length (nodes (init_hub [[], []] ''127.0.0.1'')))"
    by (simp_all add: init_hub_def)
  have 3: "sample_hub = sync_start_proxies sample_tf (init_hub [[], []] ''127.0.0.1'')"
    by (simp add: sample_hub_def)
  have 4: "ports2node_map (init_hub [[], []] ''127.0.0.1'') = Map.empty"
    by (simp add: init_hub_def)
  have 5: "get_node_port sample_tf 1 = 11001"
    by (simp add: get_node_port_def sample_tf_def)
  have 6: "get_proxy_port sample_tf sample_hub 1 = 11004"
    by (simp add: get_proxy_port_def sample_tf_def sample_hub_fields)
  have 7: "length (nodes (init_hub [[], []] ''127.0.0.1'')) = 2"
    by (simp add: init_hub_def)
  from ports2node_map_built [OF 1 2 3] 4
  have "ports2node_map sample_hub (get_node_port sample_tf 1) = Some 1"
    and "ports2node_map sample_hub (get_proxy_port sample_tf sample_hub 1) = Some 1"
    and "card (dom (ports2node_map sample_hub)) =
           2 * length (nodes (init_hub [[], []] ''127.0.0.1''))"
    by blast+
  with 1 5 6 7 show ?thesis by simp
qed

text \<open>
  Without the assumption on the allocator the table need not map the port of a node to
  that node: with an allocator that gives every index the same port, the port of node 0
  is mapped to node 1.
\<close>

lemma colliding_ports:
  "ports2node_map
     (sync_start_proxies \<lparr>p2p_port = (\<lambda>n. 11000), hash256 = (\<lambda>m. m)\<rparr>
        (init_hub [[], []] ''127.0.0.1'')) 11000 = Some 1"
  by (simp add: sync_start_proxies_def init_hub_def node_ids_def register_ports_def
      get_node_port_def get_proxy_port_def upt_conv_Cons)

subsection \<open>Disconnecting an edge\<close>

lemma close_transport_tables [simp]:
  "sender2proxy_transports (close_transport t h) = sender2proxy_transports h"
  "proxy2receiver_transports (close_transport t h) = proxy2receiver_transports h"
  "relay_tasks (close_transport t h) = relay_tasks h"
  "pending_connection (close_transport t h) = pending_connection h"
  "proxy_servers (close_transport t h) = proxy_servers h"
  "nodes (close_transport t h) = nodes h"
  by (simp_all add: close_transport_def split: option.split)

lemma cancel_task_tables [simp]:
  "sender2proxy_transports (cancel_task t h) = sender2proxy_transports h"
  "proxy2receiver_transports (cancel_task t h) = proxy2receiver_transports h"
  "relay_tasks (cancel_task t h) = relay_tasks h"
  "pending_connection (cancel_task t h) = pending_connection h"
  "proxy_servers (cancel_task t h) = proxy_servers h"
  "nodes (cancel_task t h) = nodes h"
  by (simp_all add: cancel_task_def split: option.split)

lemma disconnect_nodes_tables:
  "sender2proxy_transports (disconnect_nodes h out inb) =
     (sender2proxy_transports h)((out, inb) := None)"
  "proxy2receiver_transports (disconnect_nodes h out inb) =
     (proxy2receiver_transports h)((out, inb) := None)"
  "relay_tasks (disconnect_nodes h out inb) = (relay_tasks h)((out, inb) := None)"
  "pending_connection (disconnect_nodes h out inb) = pending_connection h"
  "proxy_servers (disconnect_nodes h out inb) = proxy_servers h"
  "nodes (disconnect_nodes h out inb) = nodes h"
  by (simp_all add: disconnect_nodes_def Let_def)

lemma disconnect_nodes_absent:
  assumes "sender2proxy_transports h (out, inb) = None"
    and "proxy2receiver_transports h (out, inb) = None"
    and "relay_tasks h (out, inb) = None"
  shows "disconnect_nodes h out inb = h"
proof -
  have "(sender2proxy_transports h)((out, inb) := None) = sender2proxy_transports h"
    "(proxy2receiver_transports h)((out, inb) := None) = proxy2receiver_transports h"
    "(relay_tasks h)((out, inb) := None) = relay_tasks h"
    using assms by (simp_all add: fun_upd_idem)
  with assms show ?thesis
    by (simp add: disconnect_nodes_def close_transport_def cancel_task_def)
qed

text \<open>
  C8. After \<^verbatim>\<open>disconnect_nodes(out, in)\<close>, on any hub, the edge has no entry in
  \<^verbatim>\<open>sender2proxy_transports\<close>, in \<^verbatim>\<open>proxy2receiver_transports\<close> or in
  \<^verbatim>\<open>relay_tasks\<close>. The function raises nothing; where the three entries were absent
  already it leaves the hub as it is, and running it a second time changes nothing.
\<close>

theorem disconnect_nodes_idempotent:
  "sender2proxy_transports (disconnect_nodes h out inb) (out, inb) = None
   \<and> proxy2receiver_transports (disconnect_nodes h out inb) (out, inb) = None
   \<and> relay_tasks (disconnect_nodes h out inb) (out, inb) = None
   \<and> (sender2proxy_transports h (out, inb) = None
        \<and> proxy2receiver_transports h (out, inb) = None
        \<and> relay_tasks h (out, inb) = None
       \<longrightarrow> disconnect_nodes h out inb = h)
   \<and> disconnect_nodes (disconnect_nodes h out inb) out inb = disconnect_nodes h out inb"
proof -
  have gone: "sender2proxy_transports (disconnect_nodes h out inb) (out, inb) = None"
    "proxy2receiver_transports (disconnect_nodes h out inb) (out, inb) = None"
    "relay_tasks (disconnect_nodes h out inb) (out, inb) = None"
    by (simp_all add: disconnect_nodes_tables)
  from disconnect_nodes_absent [OF gone]
  have "disconnect_nodes (disconnect_nodes h out inb) out inb = disconnect_nodes h out inb" .
  with gone disconnect_nodes_absent [of h out inb] show ?thesis by blast
qed

text \<open>
  C8 at the open edge \<open>(0, 1)\<close> of the sample hub, and at the same edge of the hub in
  which it was never opened.
\<close>

theorem disconnect_nodes_idempotent_witness:
  "sender2proxy_transports sample_open_hub (0, 1) = Some 0
   \<and> proxy2receiver_transports sample_open_hub (0, 1) = Some 1
   \<and> relay_tasks sample_open_hub (0, 1) = Some 0
   \<and> sender2proxy_transports (disconnect_nodes sample_open_hub 0 1) (0, 1) = None
   \<and> proxy2receiver_transports (disconnect_nodes sample_open_hub 0 1) (0, 1) = None
   \<and> relay_tasks (disconnect_nodes sample_open_hub 0 1) (0, 1) = None
   \<and> disconnect_nodes (disconnect_nodes sample_open_hub 0 1) 0 1 =
       disconnect_nodes sample_open_hub 0 1
   \<and> disconnect_nodes sample_hub 0 1 = sample_hub"
proof -
  have absent: "sender2proxy_transports sample_hub (0, 1) = None
        \<and> proxy2receiver_transports sample_hub (0, 1) = None
        \<and> relay_tasks sample_hub (0, 1) = None"
    by (simp add: sample_hub_def sync_start_proxies_def init_hub_def)
  from disconnect_nodes_idempotent [of sample_open_hub 0 1]
    disconnect_nodes_idempotent [of sample_hub 0 1] absent
  show ?thesis by (simp add: sample_open_hub_fields)
qed

subsection \<open>Connecting an edge that exists\<close>

lemma connect_nodes_transports_no_raise:
  "snd (connect_nodes_transports h) \<noteq> Raised e"
  by (simp add: connect_nodes_transports_def)

lemma connect_nodes_lock_raises:
  "(\<exists>e. snd (connect_nodes_lock tf out inb h) = Raised (RuntimeError e))
   \<longleftrightarrow> pending_connection h = None
        \<and> (sender2proxy_transports h (out, inb) \<noteq> None
            \<or> proxy2receiver_transports h (out, inb) \<noteq> None)"
proof (cases "pending_connection h")
  case None
  then show ?thesis
    by (auto simp add: connect_nodes_lock_def Let_def connect_nodes_transports_no_raise
        connect_sender_to_proxy_def split: sum.splits if_splits)
next
  case (Some e)
  then show ?thesis
    by (simp add: connect_nodes_lock_def)
qed

lemma connect_nodes_lock_raised:
  assumes "connect_nodes_lock tf out inb h = (h', Raised (RuntimeError e))"
  shows "e = (out, inb)"
    and "pending_connection h = None"
    and "h' = h\<lparr>pending_connection := Some (out, inb)\<rparr>"
    and "sender2proxy_transports h (out, inb) \<noteq> None
         \<or> proxy2receiver_transports h (out, inb) \<noteq> None"
proof -
  from assms show free: "pending_connection h = None"
    by (cases "pending_connection h") (simp_all add: connect_nodes_lock_def)
  with assms show "e = (out, inb)"
    and "h' = h\<lparr>pending_connection := Some (out, inb)\<rparr>"
    and "sender2proxy_transports h (out, inb) \<noteq> None
         \<or> proxy2receiver_transports h (out, inb) \<noteq> None"
    by (auto simp add: connect_nodes_lock_def Let_def connect_sender_to_proxy_def
        connect_nodes_transports_def split: sum.splits if_splits option.splits)
qed

lemma connect_nodes_raised:
  assumes "connect_nodes tf pc out inb h = (h', Raised (RuntimeError e))"
  shows "connect_nodes_lock tf out inb h = (h', Raised (RuntimeError e))"
  using assms
  by (cases pc)
    (auto simp add: connect_nodes_def connect_nodes_proxies_def connect_nodes_transports_def
      split: if_splits option.splits)

text \<open>
  C7. Let \<^verbatim>\<open>connect_nodes(out, in)\<close> run at a moment where it acquires the lock: the
  servers are listening and \<^verbatim>\<open>pending_connection\<close> is \<^verbatim>\<open>None\<close>. It raises the
  \<^verbatim>\<open>RuntimeError\<close> of an edge already established if and only if the edge is a key of
  \<^verbatim>\<open>sender2proxy_transports\<close> or of \<^verbatim>\<open>proxy2receiver_transports\<close>. And on a hub on
  which \<^verbatim>\<open>disconnect_nodes(out, in)\<close> has just run, \<^verbatim>\<open>connect_nodes(out, in)\<close> does not
  raise that error, wherever it is resumed.
\<close>

theorem connect_nodes_already_established:
  assumes "pending_connection h = None"
    and "length (nodes h) \<le> length (proxy_servers h)"
    and "pc = AwaitProxies \<or> pc = AwaitLock"
  shows "((\<exists>e. snd (connect_nodes tf pc outbound_idx inbound_idx h) = Raised (RuntimeError e))
          \<longleftrightarrow> sender2proxy_transports h (outbound_idx, inbound_idx) \<noteq> None
               \<or> proxy2receiver_transports h (outbound_idx, inbound_idx) \<noteq> None)
         \<and> (\<forall>pc' e. snd (connect_nodes tf pc' outbound_idx inbound_idx
                            (disconnect_nodes h outbound_idx inbound_idx))
                      \<noteq> Raised (RuntimeError e))"
proof -
  from assms(2,3)
  have "connect_nodes tf pc outbound_idx inbound_idx h =
          connect_nodes_lock tf outbound_idx inbound_idx h"
    by (auto simp add: connect_nodes_def connect_nodes_proxies_def)
  with assms(1) connect_nodes_lock_raises [of tf outbound_idx inbound_idx h]
  have first: "(\<exists>e. snd (connect_nodes tf pc outbound_idx inbound_idx h) = Raised (RuntimeError e))
          \<longleftrightarrow> sender2proxy_transports h (outbound_idx, inbound_idx) \<noteq> None
               \<or> proxy2receiver_transports h (outbound_idx, inbound_idx) \<noteq> None"
    by simp
  have second: "snd (connect_nodes tf pc' outbound_idx inbound_idx
                            (disconnect_nodes h outbound_idx inbound_idx))
                      \<noteq> Raised (RuntimeError e)" for pc' e
  proof
    assume raised: "snd (connect_nodes tf pc' outbound_idx inbound_idx
                            (disconnect_nodes h outbound_idx inbound_idx))
                      = Raised (RuntimeError e)"
    then obtain h' where "connect_nodes tf pc' outbound_idx inbound_idx
        (disconnect_nodes h outbound_idx inbound_idx) = (h', Raised (RuntimeError e))"
      by (metis prod.collapse)
    from connect_nodes_lock_raised(4) [OF connect_nodes_raised [OF this]]
    show False by (simp add: disconnect_nodes_tables)
  qed
  from first second show ?thesis by blast
qed

text \<open>
  C7 at the sample hub with the edge \<open>(0, 1)\<close> open: connecting \<open>(0, 1)\<close> raises,
  connecting \<open>(1, 0)\<close> does not, and connecting \<open>(0, 1)\<close> after disconnecting it does
  not.
\<close>

theorem connect_nodes_already_established_witness:
  "pending_connection sample_open_hub = None
   \<and> length (nodes sample_open_hub) \<le> length (proxy_servers sample_open_hub)
   \<and> sender2proxy_transports sample_open_hub (0, 1) = Some 0
   \<and> (\<exists>e. snd (connect_nodes sample_tf AwaitProxies 0 1 sample_open_hub)
             = Raised (RuntimeError e))
   \<and> \<not> (\<exists>e. snd (connect_nodes sample_tf AwaitProxies 1 0 sample_open_hub)
             = Raised (RuntimeError e))
   \<and> snd (connect_nodes sample_tf AwaitProxies 0 1 (disconnect_nodes sample_open_hub 0 1))
       \<noteq> Raised (RuntimeError (0, 1))"
proof -
  have 1: "pending_connection sample_open_hub = None"
    by (simp add: sample_open_hub_fields)
  have 2: "length (nodes sample_open_hub) \<le> length (proxy_servers sample_open_hub)"
    by (simp add: sample_open_hub_more)
  have 3: "AwaitProxies = AwaitProxies \<or> AwaitProxies = AwaitLock"
    by simp
  have 4: "sender2proxy_transports sample_open_hub (1, 0) = None"
    "proxy2receiver_transports sample_open_hub (1, 0) = None"
    by (simp_all add: sample_open_hub_def)
  from connect_nodes_already_established [OF 1 2 3, of sample_tf 0 1]
    connect_nodes_already_established [OF 1 2 3, of sample_tf 1 0]
  show ?thesis
    by (simp add: 1 2 4 sample_open_hub_fields)
qed

text \<open>
  C10. If \<^verbatim>\<open>connect_nodes(out, in)\<close> raises the \<^verbatim>\<open>RuntimeError\<close> of an edge already
  established, the lock was free before and holds \<open>(out, in)\<close> afterwards; nothing else
  of the hub has changed. The lock is not released: any \<^verbatim>\<open>connect_nodes\<close> that then
  waits for it is suspended again.
\<close>

theorem connect_nodes_keeps_lock_on_error:
  assumes "connect_nodes tf pc outbound_idx inbound_idx h = (h', Raised (RuntimeError e))"
  shows "pending_connection h = None
         \<and> pending_connection h' = Some (outbound_idx, inbound_idx)
         \<and> h' = h\<lparr>pending_connection := Some (outbound_idx, inbound_idx)\<rparr>
         \<and> e = (outbound_idx, inbound_idx)
         \<and> connect_nodes tf AwaitLock out' in' h' = (h', Suspended AwaitLock)"
proof -
  note raised = connect_nodes_lock_raised [OF connect_nodes_raised [OF assms]]
  from raised(3) have "pending_connection h' = Some (outbound_idx, inbound_idx)"
    by simp
  moreover from this have "connect_nodes tf AwaitLock out' in' h' = (h', Suspended AwaitLock)"
    by (simp add: connect_nodes_def connect_nodes_lock_def)
  ultimately show ?thesis using raised by simp
qed

text \<open>
  C10 at the sample hub with the edge \<open>(0, 1)\<close> open: after the error the lock holds
  \<open>(0, 1)\<close>, and a \<^verbatim>\<open>connect_nodes(1, 0)\<close> that waits for it stays suspended.
\<close>

theorem connect_nodes_keeps_lock_on_error_witness:
  "connect_nodes sample_tf AwaitProxies 0 1 sample_open_hub =
     (sample_open_hub\<lparr>pending_connection := Some (0, 1)\<rparr>, Raised (RuntimeError (0, 1)))
   \<and> pending_connection sample_open_hub = None
   \<and> pending_connection (sample_open_hub\<lparr>pending_connection := Some (0, 1)\<rparr>) = Some (0, 1)
   \<and> connect_nodes sample_tf AwaitLock 1 0 (sample_open_hub\<lparr>pending_connection := Some (0, 1)\<rparr>)
       = (sample_open_hub\<lparr>pending_connection := Some (0, 1)\<rparr>, Suspended AwaitLock)"
proof -
  have raised: "connect_nodes sample_tf AwaitProxies 0 1 sample_open_hub =
     (sample_open_hub\<lparr>pending_connection := Some (0, 1)\<rparr>, Raised (RuntimeError (0, 1)))"
    by (simp add: connect_nodes_def connect_nodes_proxies_def connect_nodes_lock_def
        sample_open_hub_fields sample_open_hub_more)
  from connect_nodes_keeps_lock_on_error [OF raised, of 1 0] raised
  show ?thesis by simp
qed

subsection \<open>An edge from its connection to its loss\<close>

text \<open>
  The sample hub with the open edge is what the hub becomes when \<^verbatim>\<open>connect_nodes(0, 1)\<close>
  runs on the sample hub: the coroutine takes the lock, asks node 0 to dial the proxy of
  node 1, creates the relay task and waits for the transports; the two
  \<^verbatim>\<open>connection_made\<close> register them; the coroutine then releases the lock and returns.
\<close>

lemma connect_suspends:
  "connect_nodes sample_tf AwaitProxies 0 1 sample_hub =
     (sample_open_hub\<lparr>sender2proxy_transports := Map.empty,
                      proxy2receiver_transports := Map.empty,
                      pending_connection := Some (0, 1)\<rparr>,
      Suspended AwaitTransports)"
  by (simp add: connect_nodes_def connect_nodes_proxies_def connect_nodes_lock_def
        connect_sender_to_proxy_def connect_proxy_to_receiver_def connect_nodes_transports_def
        sample_hub_fields get_proxy_port_def sample_tf_def Let_def sample_open_hub_def)
    (simp add: sample_hub_def sync_start_proxies_def init_hub_def)

lemma sender_connection_made:
  "NodeProxy_connection_made
     (sample_open_hub\<lparr>sender2proxy_transports := Map.empty,
                      proxy2receiver_transports := Map.empty,
                      pending_connection := Some (0, 1)\<rparr>) 0 =
   Inr (sample_open_hub\<lparr>proxy2receiver_transports := Map.empty,
                         pending_connection := Some (0, 1)\<rparr>, sample_handler)"
  by (simp add: NodeProxy_connection_made_def sample_handler_def sample_open_hub_def)

lemma receiver_connection_made:
  "ProxyRelay_connection_made
     (sample_open_hub\<lparr>proxy2receiver_transports := Map.empty,
                      pending_connection := Some (0, 1)\<rparr>) (0, 1) 1 =
   (sample_open_hub\<lparr>pending_connection := Some (0, 1)\<rparr>, sample_handler)"
  by (simp add: ProxyRelay_connection_made_def sample_handler_def sample_open_hub_def)

lemma connect_returns:
  "connect_nodes sample_tf AwaitTransports 0 1
     (sample_open_hub\<lparr>pending_connection := Some (0, 1)\<rparr>) = (sample_open_hub, Returned)"
  by (simp add: connect_nodes_def connect_nodes_transports_def sample_open_hub_fields)

text \<open>
  When a connection of the edge is lost, the edge leaves the tables, both transports
  are closed and the relay task is cancelled; the edge can then be connected again.
\<close>

lemma connection_lost_tables:
  "sender2proxy_transports (connection_lost sample_open_hub sample_handler) (0, 1) = None"
  "proxy2receiver_transports (connection_lost sample_open_hub sample_handler) (0, 1) = None"
  "relay_tasks (connection_lost sample_open_hub sample_handler) (0, 1) = None"
  "pending_connection (connection_lost sample_open_hub sample_handler) = None"
  by (simp_all add: connection_lost_def sample_handler_def disconnect_nodes_tables
      sample_open_hub_fields)

lemma connection_lost_closes:
  "closing (connection_lost sample_open_hub sample_handler) = {0, 1}"
  "cancel_requested (connection_lost sample_open_hub sample_handler) = {0}"
proof -
  have "cancelled sample_open_hub = {}" "cancel_requested sample_open_hub = {}"
    by (simp_all add: sample_open_hub_def sample_hub_def sync_start_proxies_def init_hub_def)
  then show "closing (connection_lost sample_open_hub sample_handler) = {0, 1}"
    and "cancel_requested (connection_lost sample_open_hub sample_handler) = {0}"
    by (auto simp add: connection_lost_def sample_handler_def disconnect_nodes_def
        close_transport_def cancel_task_def sample_open_hub_fields Let_def)
qed

lemma connect_after_connection_lost:
  "snd (connect_nodes sample_tf AwaitProxies 0 1
          (connection_lost sample_open_hub sample_handler)) = Suspended AwaitTransports"
  by (simp add: connect_nodes_def connect_nodes_proxies_def connect_nodes_lock_def
      connect_sender_to_proxy_def connect_proxy_to_receiver_def connect_nodes_transports_def
      connection_lost_def sample_handler_def disconnect_nodes_tables
      sample_open_hub_fields sample_open_hub_more Let_def)

end
